theory Spec2Isabelle
  imports Complex_Main
begin

section \<open>Python values: errors and strings\<close>

text \<open>
  Every exception the modelled functions can end with is a value of \<open>py_error\<close>; a
  function that may raise returns \<open>py_error + 'a\<close> with \<open>Inl\<close> for the exception.
  \<open>SystemExit\<close> (raised by \<^verbatim>\<open>exit(1)\<close>) is the one member that is not a subclass of
  Python's \<^verbatim>\<open>Exception\<close>, so an \<^verbatim>\<open>except Exception\<close> clause does not catch it.
  \<open>Raised msg\<close> stands for an exception of an external collaborator (a subprocess, the
  structure parser), of some class below \<^verbatim>\<open>Exception\<close>.
\<close>

datatype py_error =
    KeyError
  | ValueError
  | FileNotFoundError
  | UnboundLocalError
  | AttributeError
  | IndexError
  | SystemExit
  | Raised string

definition is_Exception :: "py_error \<Rightarrow> bool" where
  "is_Exception e = (e \<noteq> SystemExit)"

text \<open>
  Strings are lists of 8-bit characters, read as the code points below 256. On these,
  \<^verbatim>\<open>str.isspace\<close> (used by \<^verbatim>\<open>strip()\<close>, \<^verbatim>\<open>split()\<close> and the pattern \<^verbatim>\<open>\s\<close>) holds of the
  twelve characters below, and the pattern \<^verbatim>\<open>\d\<close> matches the ten ASCII digits.
\<close>

definition isspace :: "char \<Rightarrow> bool" where
  "isspace c = (c \<in> set [CHR 0x09, CHR 0x0A, CHR 0x0B, CHR 0x0C, CHR 0x0D,
                          CHR 0x1C, CHR 0x1D, CHR 0x1E, CHR 0x1F, CHR 0x20,
                          CHR 0x85, CHR 0xA0])"

definition isdigit :: "char \<Rightarrow> bool" where
  "isdigit c = (c \<in> set ''0123456789'')"

definition isdigdot :: "char \<Rightarrow> bool" where
  "isdigdot c = (isdigit c \<or> c = CHR ''.'')"

text \<open>\<^verbatim>\<open>s.strip()\<close>: whitespace removed at both ends.\<close>

definition strip :: "string \<Rightarrow> string" where
  "strip s = rev (dropWhile isspace (rev (dropWhile isspace s)))"

text \<open>\<^verbatim>\<open>s.split()\<close>: the maximal runs of non-whitespace characters, in order.\<close>

fun split_from :: "string \<Rightarrow> string \<Rightarrow> string list" where
  "split_from cur [] = (if cur = [] then [] else [cur])"
| "split_from cur (c # cs) =
     (if isspace c then (if cur = [] then split_from [] cs else cur # split_from [] cs)
      else split_from (cur @ [c]) cs)"

definition split :: "string \<Rightarrow> string list" where
  "split s = split_from [] s"

text \<open>\<^verbatim>\<open>re.findall(r"\d+", s)\<close>: the maximal runs of digits, in order.\<close>

fun findall_from :: "string \<Rightarrow> string \<Rightarrow> string list" where
  "findall_from cur [] = (if cur = [] then [] else [cur])"
| "findall_from cur (c # cs) =
     (if isdigit c then findall_from (cur @ [c]) cs
      else (if cur = [] then findall_from [] cs else cur # findall_from [] cs))"

definition findall_digits :: "string \<Rightarrow> string list" where
  "findall_digits s = findall_from [] s"

text \<open>
  \<^verbatim>\<open>s.splitlines()\<close>: the line boundaries among the code points below 256 are
  \<^verbatim>\<open>\n \r \r\n \v \f \x1c \x1d \x1e \x85\<close>; the boundary is dropped, and a text that ends
  with a boundary has no empty last line.
\<close>

definition islinebreak :: "char \<Rightarrow> bool" where
  "islinebreak c = (c \<in> set [CHR 0x0A, CHR 0x0B, CHR 0x0C, CHR 0x0D,
                              CHR 0x1C, CHR 0x1D, CHR 0x1E, CHR 0x85])"

fun splitlines_from :: "string \<Rightarrow> string \<Rightarrow> string list" where
  "splitlines_from cur [] = (if cur = [] then [] else [cur])"
| "splitlines_from cur [c] = (if islinebreak c then [cur] else [cur @ [c]])"
| "splitlines_from cur (c # d # cs) =
     (if c = CHR 0x0D \<and> d = CHR 0x0A then cur # splitlines_from [] cs
      else if islinebreak c then cur # splitlines_from [] (d # cs)
      else splitlines_from (cur @ [c]) (d # cs))"

definition splitlines :: "string \<Rightarrow> string list" where
  "splitlines s = splitlines_from [] s"

definition endswith :: "string \<Rightarrow> string \<Rightarrow> bool" where
  "endswith s suf = (take (length suf) (rev s) = rev suf)"

definition startswith :: "string \<Rightarrow> string \<Rightarrow> bool" where
  "startswith s pre = (take (length pre) s = pre)"

text \<open>\<^verbatim>\<open>sep.join(xs)\<close>.\<close>

fun py_join :: "string \<Rightarrow> string list \<Rightarrow> string" where
  "py_join sep [] = []"
| "py_join sep [x] = x"
| "py_join sep (x # y # ys) = x @ sep @ py_join sep (y # ys)"

text \<open>\<^verbatim>\<open>int(s)\<close> on a string of ASCII digits (Python's integers are unbounded).\<close>

definition digit_val :: "char \<Rightarrow> int" where
  "digit_val c = int (of_char c) - 48"

definition py_int :: "string \<Rightarrow> int" where
  "py_int s = foldl (\<lambda>a c. 10 * a + digit_val c) 0 s"


section \<open>The cluster log parser (run\_clustering.py, parse\_cluster\_log)\<close>

text \<open>
  The header pattern of the source is
  \<^verbatim>\<open>^\s*(\d+)\s*\|\s*(\d+)\s*([\d.]*)\s*\|\s*(\d+)\s*([\d.]*)\s*\|\<close>,
  applied with \<^verbatim>\<open>re.match\<close> at the start of the stripped line. Every piece of it is a
  greedy repetition of a character class followed by a piece that cannot start with a
  character of that class, except that \<^verbatim>\<open>(\d+)\s*([\d.]*)\<close> may split a run of digits
  between its two groups; the engine tries the longest \<^verbatim>\<open>\d+\<close> first, and that
  choice succeeds whenever a shorter one does. So the match is the left-to-right scan
  below, which takes the longest run at each piece; \<open>re_header\<close> returns the five groups
  and the text after the match (\<^verbatim>\<open>line[match.end():]\<close>).
\<close>

definition re_bar :: "string \<Rightarrow> string option" where
  "re_bar s = (case s of [] \<Rightarrow> None | c # r \<Rightarrow> if c = CHR ''|'' then Some r else None)"

definition re_int_field :: "string \<Rightarrow> (string \<times> string) option" where
  "re_int_field s =
     (let t = dropWhile isspace s; g = takeWhile isdigit t in
      if g = [] then None else Some (g, dropWhile isdigit t))"

definition re_real_field :: "string \<Rightarrow> string \<times> string" where
  "re_real_field s =
     (let t = dropWhile isspace s in (takeWhile isdigdot t, dropWhile isdigdot t))"

definition re_header :: "string \<Rightarrow> (string \<times> string \<times> string \<times> string \<times> string \<times> string) option" where
  "re_header line =
     Option.bind (re_int_field line) (\<lambda>(g1, s1).
     Option.bind (re_bar (dropWhile isspace s1)) (\<lambda>s2.
     Option.bind (re_int_field s2) (\<lambda>(g2, s3).
     (let (g3, s4) = re_real_field s3 in
     Option.bind (re_bar (dropWhile isspace s4)) (\<lambda>s5.
     Option.bind (re_int_field s5) (\<lambda>(g4, s6).
     (let (g5, s7) = re_real_field s6 in
     Option.bind (re_bar (dropWhile isspace s7)) (\<lambda>rest.
     Some (g1, g2, g3, g4, g5, rest)))))))))"

text \<open>
  \<^verbatim>\<open>float(g) if g else np.nan\<close> on a group matched by \<^verbatim>\<open>[\d.]*\<close>: the empty group
  gives NaN; a group with at least one digit and at most one point is a float literal;
  any other (\<^verbatim>\<open>"."\<close>, \<^verbatim>\<open>"1.2.3"\<close>) makes \<^verbatim>\<open>float\<close> raise ValueError. The float is
  kept as its literal: no claim depends on its rounding.
\<close>

datatype metric = NaN | Float_of string

definition float_or_nan :: "string \<Rightarrow> py_error + metric" where
  "float_or_nan g =
     (if g = [] then Inr NaN
      else if (\<exists>c \<in> set g. isdigit c) \<and> length (filter (\<lambda>c. c = CHR ''.'') g) \<le> 1
           then Inr (Float_of g)
      else Inl ValueError)"

text \<open>
  One row of the table. In the loop \<open>Members\<close> is the list of member tokens; in the
  returned frame it is their \<^verbatim>\<open>", ".join\<close>.
\<close>

record 'm cluster =
  Cluster_ID :: int
  Num_Structures :: int
  RMSD :: metric
  Middle_Structure :: int
  Middle_RMSD :: metric
  Members :: 'm

text \<open>
  The loop over \<^verbatim>\<open>log_text.splitlines()\<close>, with the two variables \<open>clusters\<close> and
  \<open>current_cluster\<close> (\<open>None\<close> before the first header) passed along.
\<close>

definition new_cluster ::
  "string \<Rightarrow> string \<Rightarrow> metric \<Rightarrow> string \<Rightarrow> metric \<Rightarrow> string \<Rightarrow> string list cluster" where
  "new_cluster g1 g2 rmsd g4 middle_rmsd rest =
     \<lparr>Cluster_ID = py_int g1, Num_Structures = py_int g2, RMSD = rmsd,
      Middle_Structure = py_int g4, Middle_RMSD = middle_rmsd,
      Members = findall_digits rest\<rparr>"

definition append_current ::
  "string list cluster list \<Rightarrow> string list cluster option \<Rightarrow> string list cluster list" where
  "append_current clusters cur = (case cur of None \<Rightarrow> clusters | Some c \<Rightarrow> clusters @ [c])"

fun parse_loop ::
  "string list cluster list \<Rightarrow> string list cluster option \<Rightarrow> string list
     \<Rightarrow> py_error + (string list cluster list \<times> string list cluster option)" where
  "parse_loop clusters cur [] = Inr (clusters, cur)"
| "parse_loop clusters cur (l # ls) =
     (let line = strip l in
      if line = [] then parse_loop clusters cur ls
      else (case re_header line of
        Some (g1, g2, g3, g4, g5, rest) \<Rightarrow>
          (case float_or_nan g3 of
             Inl e \<Rightarrow> Inl e
           | Inr rmsd \<Rightarrow>
              (case float_or_nan g5 of
                 Inl e \<Rightarrow> Inl e
               | Inr middle_rmsd \<Rightarrow>
                   parse_loop (append_current clusters cur)
                     (Some (new_cluster g1 g2 rmsd g4 middle_rmsd rest)) ls))
      | None \<Rightarrow>
          (case cur of
             Some c \<Rightarrow>
               parse_loop clusters (Some (c\<lparr>Members := Members c @ findall_digits line\<rparr>)) ls
           | None \<Rightarrow> parse_loop clusters None ls)))"

definition join_members :: "string list cluster \<Rightarrow> string cluster" where
  "join_members c =
     \<lparr>Cluster_ID = Cluster_ID c, Num_Structures = Num_Structures c, RMSD = RMSD c,
      Middle_Structure = Middle_Structure c, Middle_RMSD = Middle_RMSD c,
      Members = py_join '', '' (Members c)\<rparr>"

text \<open>
  The whole function. A string that ends in \<^verbatim>\<open>.log\<close> is a path: \<open>read_file\<close> is the
  outcome of opening and reading it (the file system is a parameter). After the loop,
  \<^verbatim>\<open>pd.DataFrame(clusters)\<close> of an empty list is a frame with no columns, and
  \<^verbatim>\<open>df["Members"]\<close> on it raises KeyError.
\<close>

definition parse_cluster_log ::
  "(string \<Rightarrow> py_error + string) \<Rightarrow> string \<Rightarrow> py_error + string cluster list" where
  "parse_cluster_log read_file log_text =
     (case (if endswith log_text ''.log'' then read_file log_text else Inr log_text) of
        Inl e \<Rightarrow> Inl e
      | Inr text \<Rightarrow>
          (case parse_loop [] None (splitlines text) of
             Inl e \<Rightarrow> Inl e
           | Inr (clusters, cur) \<Rightarrow>
               (if append_current clusters cur = [] then Inl KeyError
                else Inr (map join_members (append_current clusters cur)))))"


section \<open>The cluster score file (haddock\_analysis.py, parse\_cluster\_score)\<close>

text \<open>
  A Python float is a finite value, one of the two infinities, or a NaN. The comparison
  \<^verbatim>\<open><\<close> is false whenever a NaN takes part.
\<close>

datatype pyfloat = Finite real | PosInf | NegInf | NotANumber

fun float_lt :: "pyfloat \<Rightarrow> pyfloat \<Rightarrow> bool" where
  "float_lt (Finite a) (Finite b) = (a < b)"
| "float_lt (Finite a) PosInf = True"
| "float_lt NegInf (Finite b) = True"
| "float_lt NegInf PosInf = True"
| "float_lt _ _ = False"

text \<open>
  Iterating over a file opened in text mode gives its lines, each with its line end
  (\<^verbatim>\<open>\n\<close>, \<^verbatim>\<open>\r\<close> or \<^verbatim>\<open>\r\n\<close>, read as \<^verbatim>\<open>\n\<close>).
\<close>

fun readlines_from :: "string \<Rightarrow> string \<Rightarrow> string list" where
  "readlines_from cur [] = (if cur = [] then [] else [cur])"
| "readlines_from cur [c] =
     (if c = CHR 0x0A \<or> c = CHR 0x0D then [cur @ [CHR 0x0A]] else [cur @ [c]])"
| "readlines_from cur (c # d # cs) =
     (if c = CHR 0x0D \<and> d = CHR 0x0A then (cur @ [CHR 0x0A]) # readlines_from [] cs
      else if c = CHR 0x0A \<or> c = CHR 0x0D then (cur @ [CHR 0x0A]) # readlines_from [] (d # cs)
      else readlines_from (cur @ [c]) (d # cs))"

definition readlines :: "string \<Rightarrow> string list" where
  "readlines s = readlines_from [] s"

text \<open>
  The body of the loop of \<^verbatim>\<open>parse_cluster_score\<close> on one line, on the pair
  (\<^verbatim>\<open>self.best_cluster\<close>, \<^verbatim>\<open>self.best_score\<close>). The builtin \<^verbatim>\<open>float\<close> is the parameter
  \<open>py_float\<close>: \<open>None\<close> where it raises ValueError.
\<close>

definition score_step ::
  "(string \<Rightarrow> pyfloat option) \<Rightarrow> string \<Rightarrow> string option \<times> pyfloat \<Rightarrow> string option \<times> pyfloat" where
  "score_step py_float l st =
     (let line = strip l in
      if startswith line ''#'' \<or> line = [] then st
      else (let tokens = split line in
        if length tokens < 2 then st
        else (let cluster_name = tokens ! 0 in
          case py_float (tokens ! 1) of
            None \<Rightarrow> st
          | Some score \<Rightarrow> if float_lt score (snd st) then (Some cluster_name, score) else st)))"

text \<open>
  The function: \<open>file\<close> is the outcome of opening and reading the score file. A missing
  file ends in \<^verbatim>\<open>exit(1)\<close>; any other error of \<^verbatim>\<open>open\<close> is not caught.
\<close>

definition parse_cluster_score ::
  "(string \<Rightarrow> pyfloat option) \<Rightarrow> py_error + string \<Rightarrow> py_error + (string option \<times> pyfloat)" where
  "parse_cluster_score py_float file =
     (case file of
        Inl e \<Rightarrow> if e = FileNotFoundError then Inl SystemExit else Inl e
      | Inr content \<Rightarrow> Inr (fold (score_step py_float) (readlines content) (None, PosInf)))"

text \<open>
  The statement of the claim, in its words: the data lines are the lines that are not
  skipped, each with its cluster name and its score.
\<close>

definition data_line :: "(string \<Rightarrow> pyfloat option) \<Rightarrow> string \<Rightarrow> (string \<times> pyfloat) option" where
  "data_line py_float l =
     (if startswith (strip l) ''#'' then None
      else if strip l = [] then None
      else if length (split (strip l)) < 2 then None
      else (case py_float (split (strip l) ! 1) of
              None \<Rightarrow> None
            | Some score \<Rightarrow> Some (split (strip l) ! 0, score)))"

definition data_lines :: "(string \<Rightarrow> pyfloat option) \<Rightarrow> string \<Rightarrow> (string \<times> pyfloat) list" where
  "data_lines py_float content = List.map_filter (data_line py_float) (readlines content)"

definition selectable :: "(string \<times> pyfloat) list \<Rightarrow> (string \<times> pyfloat) list" where
  "selectable entries = filter (\<lambda>(name, score). float_lt score PosInf) entries"


section \<open>The energy tables (haddock\_analysis.py)\<close>

text \<open>
  A data frame of an energy file is the list of its rows; a row is its \<^verbatim>\<open>#struc\<close>
  cell (the first token of the line, a string) and its numeric cells. A frame with no
  rows is \<^verbatim>\<open>.empty\<close>, whatever its columns, and \<^verbatim>\<open>pd.DataFrame()\<close> is the empty list.
  \<open>to_numeric\<close> is \<^verbatim>\<open>pd.to_numeric(errors='coerce')\<close> on one cell (\<open>None\<close> for a cell the
  line does not have); it is a parameter.
\<close>

type_synonym frame = "(string \<times> pyfloat list) list"

definition is_data :: "string \<Rightarrow> bool" where
  "is_data l = (\<not> (startswith (strip l) ''#'' \<or> strip l = []))"

definition frame_row :: "(string option \<Rightarrow> pyfloat) \<Rightarrow> nat \<Rightarrow> string list \<Rightarrow> string \<times> pyfloat list" where
  "frame_row to_numeric ncols tokens =
     (hd tokens,
      map to_numeric (map Some (tl tokens) @ replicate (ncols - length tokens) None))"

text \<open>
  \<^verbatim>\<open>parse_file\<close>, the local function of \<^verbatim>\<open>parse_ener_and_edesolv_files\<close>. \<open>file\<close> is the
  outcome of opening and reading the file; only FileNotFoundError is caught.
  \<^verbatim>\<open>pd.DataFrame(data, columns=columns)\<close> pads short rows with \<^verbatim>\<open>None\<close> up to the longest
  row and raises ValueError when the longest row does not have \<open>ncols\<close> cells; of an
  empty \<open>data\<close> it is a frame with the columns and no rows.
\<close>

definition parse_file ::
  "(string option \<Rightarrow> pyfloat) \<Rightarrow> py_error + string \<Rightarrow> nat \<Rightarrow> py_error + frame" where
  "parse_file to_numeric file ncols =
     (case file of
        Inl e \<Rightarrow> if e = FileNotFoundError then Inr [] else Inl e
      | Inr content \<Rightarrow>
          (let data = map (\<lambda>l. split (strip l)) (filter is_data (readlines content)) in
           if data = [] then Inr []
           else if fold max (map length data) 0 \<noteq> ncols then Inl ValueError
           else Inr (map (frame_row to_numeric ncols) data)))"

text \<open>
  \<^verbatim>\<open>pd.merge(left, right, on="#struc", how="inner")\<close>, as pandas documents it: the rows
  of \<open>left\<close> in their order, each joined with every row of \<open>right\<close> that has the same
  key, in the order of \<open>right\<close>; a row with no partner is dropped. (Which rows the
  result has does not depend on the version of pandas; their order does only when
  \<open>left\<close> repeats a key.)
\<close>

definition merge_inner :: "frame \<Rightarrow> frame \<Rightarrow> frame" where
  "merge_inner left right =
     concat (map (\<lambda>(k, vs). map (\<lambda>(k', ws). (k, vs @ ws)) (filter (\<lambda>(k', ws). k' = k) right)) left)"

text \<open>\<^verbatim>\<open>os.path.join(a, b)\<close> on POSIX paths.\<close>

definition os_path_join :: "string \<Rightarrow> string \<Rightarrow> string" where
  "os_path_join a b =
     (if startswith b ''/'' then b
      else if a = [] \<or> endswith a ''/'' then a @ b
      else a @ ''/'' @ b)"

text \<open>The fields of a \<^verbatim>\<open>HaddockAnalysis\<close> object (\<open>None\<close> is Python's \<^verbatim>\<open>None\<close>).\<close>

record analysis =
  directory :: string
  best_cluster :: "string option"
  best_score :: "pyfloat option"
  representative_structure_path :: "string option"

definition HaddockAnalysis :: "string \<Rightarrow> analysis" where
  "HaddockAnalysis dir =
     \<lparr>directory = dir, best_cluster = None, best_score = None,
      representative_structure_path = None\<rparr>"

text \<open>\<^verbatim>\<open>f"{cluster}_{suffix}"\<close>: a \<^verbatim>\<open>None\<close> cluster is formatted as the word None.\<close>

definition cluster_file :: "string option \<Rightarrow> string \<Rightarrow> string" where
  "cluster_file cluster suffix =
     (case cluster of None \<Rightarrow> ''None'' | Some c \<Rightarrow> c) @ ''_'' @ suffix"

text \<open>
  Lines 166 to 173 of the source: the guard, the merge, and the path of the first merged
  row stored in the object.
\<close>

definition merge_ener_edesolv :: "analysis \<Rightarrow> frame \<Rightarrow> frame \<Rightarrow> frame \<times> analysis" where
  "merge_ener_edesolv self ener_df edesolv_df =
     (if ener_df \<noteq> [] \<and> edesolv_df \<noteq> [] then
        (let merged_df = merge_inner ener_df edesolv_df in
         if merged_df \<noteq> []
         then (merged_df,
               self\<lparr>representative_structure_path :=
                      Some (os_path_join (directory self) (fst (hd merged_df)))\<rparr>)
         else (merged_df, self))
      else ([], self))"

definition parse_ener_and_edesolv_files ::
  "(string option \<Rightarrow> pyfloat) \<Rightarrow> (string \<Rightarrow> py_error + string) \<Rightarrow> analysis
     \<Rightarrow> py_error + (frame \<times> analysis)" where
  "parse_ener_and_edesolv_files to_numeric read_file self =
     (case parse_file to_numeric
             (read_file (os_path_join (directory self) (cluster_file (best_cluster self) ''ener''))) 12 of
        Inl e \<Rightarrow> Inl e
      | Inr ener_df \<Rightarrow>
          (case parse_file to_numeric
                  (read_file (os_path_join (directory self) (cluster_file (best_cluster self) ''Edesolv''))) 2 of
             Inl e \<Rightarrow> Inl e
           | Inr edesolv_df \<Rightarrow> Inr (merge_ener_edesolv self ener_df edesolv_df)))"

definition get_representative_structure ::
  "(string option \<Rightarrow> pyfloat) \<Rightarrow> (string \<Rightarrow> py_error + string) \<Rightarrow> analysis
     \<Rightarrow> py_error + (frame \<times> analysis)" where
  "get_representative_structure to_numeric read_file self =
     (case parse_ener_and_edesolv_files to_numeric read_file self of
        Inl e \<Rightarrow> Inl e
      | Inr (merged_df, self') \<Rightarrow>
          if merged_df = [] then Inr ([], self') else Inr ([hd merged_df], self'))"


section \<open>Interface residues (get\_interface\_residue.py)\<close>

text \<open>
  The parsed structure as the source walks it: a structure is its models, a model maps
  chain identifiers to chains, a chain is its residues in file order, a residue has an
  identifier (hetero flag, sequence number, insertion code) and its atoms in file order.
  Coordinates are real numbers: the rounding of the float arithmetic is not modelled.
\<close>

record atom =
  atom_name :: string
  coord :: "real \<times> real \<times> real"

record residue =
  res_id :: "string \<times> int \<times> string"
  atoms :: "atom list"

type_synonym chain = "residue list"
type_synonym model = "(string \<times> chain) list"
type_synonym pdb_structure = "model list"

text \<open>\<^verbatim>\<open>res.get_id()[1]\<close>, the sequence number.\<close>

definition resseq :: "residue \<Rightarrow> int" where
  "resseq r = fst (snd (res_id r))"

text \<open>\<^verbatim>\<open>atom_a - atom_b\<close>: the Euclidean distance of the two coordinates.\<close>

definition atom_sub :: "atom \<Rightarrow> atom \<Rightarrow> real" where
  "atom_sub a b =
     (case (coord a, coord b) of
        ((x1, y1, z1), (x2, y2, z2)) \<Rightarrow> sqrt ((x1 - x2)\<^sup>2 + (y1 - y2)\<^sup>2 + (z1 - z2)\<^sup>2))"

text \<open>
  A Python set of residues is a list without repetition; \<^verbatim>\<open>s.add(x)\<close> is \<open>set_add\<close>.
  The order of the list is of no consequence: the source only sorts the set by sequence
  number and keeps the sequence numbers.
\<close>

definition set_add :: "'a \<Rightarrow> 'a list \<Rightarrow> 'a list" where
  "set_add x s = (if x \<in> set s then s else s @ [x])"

text \<open>
  The four nested loops. The two inner ones return whether they ended by \<^verbatim>\<open>break\<close>:
  the loop over \<open>atom_b\<close> breaks at the first atom within the distance, and the loop
  over \<open>atom_a\<close> continues (\<^verbatim>\<open>else: continue\<close>) as long as the inner one did not break.
\<close>

fun for_atom_b :: "real \<Rightarrow> atom \<Rightarrow> atom list \<Rightarrow> bool" where
  "for_atom_b distance atom_a [] = False"
| "for_atom_b distance atom_a (atom_b # bs) =
     (if atom_sub atom_a atom_b \<le> distance then True else for_atom_b distance atom_a bs)"

fun for_atom_a :: "real \<Rightarrow> atom list \<Rightarrow> residue \<Rightarrow> bool" where
  "for_atom_a distance [] res_b = False"
| "for_atom_a distance (atom_a # as) res_b =
     (if for_atom_b distance atom_a (atoms res_b) then True else for_atom_a distance as res_b)"

fun for_res_b ::
  "real \<Rightarrow> residue \<Rightarrow> residue list \<Rightarrow> residue list \<times> residue list \<Rightarrow> residue list \<times> residue list" where
  "for_res_b distance res_a [] (interface_a, interface_b) = (interface_a, interface_b)"
| "for_res_b distance res_a (res_b # rbs) (interface_a, interface_b) =
     for_res_b distance res_a rbs
       (if for_atom_a distance (atoms res_a) res_b
        then (set_add res_a interface_a, set_add res_b interface_b)
        else (interface_a, interface_b))"

fun for_res_a ::
  "real \<Rightarrow> residue list \<Rightarrow> residue list \<Rightarrow> residue list \<times> residue list \<Rightarrow> residue list \<times> residue list" where
  "for_res_a distance [] residues_b st = st"
| "for_res_a distance (res_a # ras) residues_b st =
     for_res_a distance ras residues_b (for_res_b distance res_a residues_b st)"

text \<open>\<^verbatim>\<open>[res.get_id()[1] for res in sorted(interface, key=lambda x: x.get_id()[1])]\<close>.\<close>

definition sorted_numbers :: "residue list \<Rightarrow> int list" where
  "sorted_numbers interface = map resseq (sort_key resseq interface)"

text \<open>
  The function, on the structure the parser returns for \<^verbatim>\<open>pdb_file\<close>.
  \<^verbatim>\<open>structure[0]\<close>, \<^verbatim>\<open>model[chain1]\<close> and \<^verbatim>\<open>model[chain2]\<close> raise KeyError when the model
  or the chain is absent. The result is the dictionary literal of the source: with
  \<open>chain1 = chain2\<close> the second entry replaces the first.
\<close>

definition get_interface_residues ::
  "pdb_structure \<Rightarrow> string \<Rightarrow> string \<Rightarrow> real \<Rightarrow> py_error + (string \<rightharpoonup> int list)" where
  "get_interface_residues struct chain1 chain2 distance =
     (case struct of
        [] \<Rightarrow> Inl KeyError
      | model # _ \<Rightarrow>
         (case map_of model chain1 of
            None \<Rightarrow> Inl KeyError
          | Some residues_a \<Rightarrow>
             (case map_of model chain2 of
                None \<Rightarrow> Inl KeyError
              | Some residues_b \<Rightarrow>
                 (case for_res_a distance residues_a residues_b ([], []) of
                    (interface_a, interface_b) \<Rightarrow>
                      Inr [chain1 \<mapsto> sorted_numbers interface_a,
                           chain2 \<mapsto> sorted_numbers interface_b]))))"


section \<open>The per-cluster task (run\_docking.py, run\_haddock\_docking\_for\_cluster)\<close>

text \<open>
  What the task asks of its surroundings, each with its outcome: loading a structure
  file, the staging and the external refinement run of lines 55 to 89 (for a cluster
  directory and the two lists of active residues), the existence of a path, the analysis
  script, and reading a file; and the two number readers.
\<close>

record env =
  env_structure :: "string \<Rightarrow> py_error + pdb_structure"
  env_refine :: "string \<Rightarrow> int list \<Rightarrow> int list \<Rightarrow> py_error + unit"
  env_exists :: "string \<Rightarrow> bool"
  env_ana_clusters :: "string \<Rightarrow> py_error + unit"
  env_read :: "string \<Rightarrow> py_error + string"
  env_float :: "string \<Rightarrow> pyfloat option"
  env_numeric :: "string option \<Rightarrow> pyfloat"

text \<open>\<^verbatim>\<open>str(n)\<close> of an integer.\<close>

fun str_nat :: "nat \<Rightarrow> string" where
  "str_nat n =
     (if n < 10 then [char_of (48 + n)] else str_nat (n div 10) @ [char_of (48 + n mod 10)])"

definition str_int :: "int \<Rightarrow> string" where
  "str_int i = (if i < 0 then ''-'' @ str_nat (nat (- i)) else str_nat (nat i))"

text \<open>
  \<^verbatim>\<open>cluster_df.loc[cluster_df['Cluster ID'] == cluster_id, 'Members'].values[0]\<close>: the
  members of the first row with that identifier, IndexError when there is none; then
  \<^verbatim>\<open>str(members).split(',')[0].strip()\<close>.
\<close>

definition lookup_members :: "string cluster list \<Rightarrow> int \<Rightarrow> py_error + string" where
  "lookup_members cluster_df cluster_id =
     (case filter (\<lambda>c. Cluster_ID c = cluster_id) cluster_df of
        [] \<Rightarrow> Inl IndexError
      | c # _ \<Rightarrow> Inr (Members c))"

definition first_member :: "string \<Rightarrow> string" where
  "first_member members = strip (takeWhile (\<lambda>c. c \<noteq> CHR '','') members)"

text \<open>\<^verbatim>\<open>interface_residues.get(k, [])\<close>.\<close>

definition dict_get :: "('k \<rightharpoonup> 'v list) \<Rightarrow> 'k \<Rightarrow> 'v list" where
  "dict_get d k = (case d k of None \<Rightarrow> [] | Some v \<Rightarrow> v)"

text \<open>
  The body of the \<^verbatim>\<open>try\<close> (lines 98 to 101): the value assigned to \<open>merged_df\<close> and
  the value assigned to \<open>representative_structure_path\<close>, or the exception raised on
  the way.
\<close>

definition try_analysis :: "env \<Rightarrow> string \<Rightarrow> py_error + (frame \<times> string option)" where
  "try_analysis w analysis_dir =
     (case env_ana_clusters w analysis_dir of
        Inl e \<Rightarrow> Inl e
      | Inr _ \<Rightarrow>
         (case parse_cluster_score (env_float w)
                 (env_read w (os_path_join analysis_dir ''cluster_haddock-score.txt_best4'')) of
            Inl e \<Rightarrow> Inl e
          | Inr (cluster, score) \<Rightarrow>
             (case get_representative_structure (env_numeric w) (env_read w)
                     ((HaddockAnalysis analysis_dir)\<lparr>best_cluster := cluster, best_score := Some score\<rparr>) of
                Inl e \<Rightarrow> Inl e
              | Inr (merged_df, self') \<Rightarrow> Inr (merged_df, representative_structure_path self'))))"

text \<open>
  The two local names at line 107. \<open>merged_df\<close> is bound from line 93 on, to \<^verbatim>\<open>None\<close> at
  first; \<open>representative_structure_path\<close> is bound only by line 101, so its state is an
  option: \<open>None\<close> means the name is unbound, \<open>Some p\<close> that it is bound to \<open>p\<close> (which may be
  Python's \<^verbatim>\<open>None\<close>). An exception of the \<^verbatim>\<open>try\<close> body that is an \<^verbatim>\<open>Exception\<close> is
  caught and printed, and the names stay as they were.
\<close>

type_synonym locals = "frame option \<times> string option option"

definition analysis_block :: "env \<Rightarrow> string \<Rightarrow> py_error + locals" where
  "analysis_block w analysis_dir =
     (if env_exists w analysis_dir then
        (case try_analysis w analysis_dir of
           Inr (merged_df, path) \<Rightarrow> Inr (Some merged_df, Some path)
         | Inl e \<Rightarrow> if is_Exception e then Inr (None, None) else Inl e)
      else Inr (None, None))"

text \<open>\<^verbatim>\<open>return merged_df, representative_structure_path\<close>.\<close>

definition return_pair :: "locals \<Rightarrow> py_error + (frame option \<times> string option)" where
  "return_pair l =
     (case snd l of
        None \<Rightarrow> Inl UnboundLocalError
      | Some path \<Rightarrow> Inr (fst l, path))"

text \<open>Lines 91 to 107: the analysis block, then the return statement.\<close>

definition analysis_and_return :: "env \<Rightarrow> string \<Rightarrow> py_error + (frame option \<times> string option)" where
  "analysis_and_return w analysis_dir =
     (case analysis_block w analysis_dir of
        Inl e \<Rightarrow> Inl e
      | Inr l \<Rightarrow> return_pair l)"

definition run_haddock_docking_for_cluster ::
  "env \<Rightarrow> int \<Rightarrow> string cluster list \<Rightarrow> real \<Rightarrow> py_error + (frame option \<times> string option)" where
  "run_haddock_docking_for_cluster w cluster_id cluster_df interface_distance =
     (case lookup_members cluster_df cluster_id of
        Inl e \<Rightarrow> Inl e
      | Inr members \<Rightarrow>
     (case env_structure w (''complex.'' @ first_member members @ ''.pdb'') of
        Inl e \<Rightarrow> Inl e
      | Inr struct \<Rightarrow>
     (case get_interface_residues struct ''A'' ''B'' interface_distance of
        Inl e \<Rightarrow> Inl e
      | Inr interface_residues \<Rightarrow>
     (case env_refine w (''Pos'' @ str_int cluster_id)
             (dict_get interface_residues ''A'') (dict_get interface_residues ''B'') of
        Inl e \<Rightarrow> Inl e
      | Inr _ \<Rightarrow>
       analysis_and_return w (''Pos'' @ str_int cluster_id @ ''/run1/structures/it1/water'')))))"


section \<open>The fan-out (run\_docking.py, docking\_pipeline, lines 169 to 178)\<close>



text \<open>
  \<^verbatim>\<open>pool.starmap(f, args)\<close> of \<^verbatim>\<open>multiprocessing.Pool\<close>. It returns the list of the results
  in the order of the arguments when every call returns. When a call raises an
  \<^verbatim>\<open>Exception\<close>, the worker sends it back and \<open>starmap\<close> raises it in the caller, after
  the other calls have ended; their results are discarded. (With several failing calls
  the pool raises the one it receives first; the model takes the first in the order of
  the arguments.) A call that ends in \<open>SystemExit\<close> ends its worker process without an
  answer, and \<open>starmap\<close> waits for it for ever: the outer \<open>None\<close>.
\<close>

definition starmap :: "('a \<Rightarrow> py_error + 'b) \<Rightarrow> 'a list \<Rightarrow> (py_error + 'b list) option" where
  "starmap f args =
     (let outcomes = map f args in
      if Inl SystemExit \<in> set outcomes then None
      else (case filter isl outcomes of
              [] \<Rightarrow> Some (Inr (map projr outcomes))
            | failed # _ \<Rightarrow> Some (Inl (projl failed))))"







section \<open>Notions used in the statements\<close>

text \<open>
  One update of the best pair by a data line, and what it is for the entry at index \<open>i\<close>
  to be the first with the least score: no entry has a smaller score, and every earlier
  entry has a greater one.
\<close>

definition take_better :: "string \<times> pyfloat \<Rightarrow> string option \<times> pyfloat \<Rightarrow> string option \<times> pyfloat" where
  "take_better e st = (if float_lt (snd e) (snd st) then (Some (fst e), snd e) else st)"

definition first_least :: "(string \<times> pyfloat) list \<Rightarrow> nat \<Rightarrow> bool" where
  "first_least cands i =
     (i < length cands
      \<and> (\<forall>j < length cands. \<not> float_lt (snd (cands ! j)) (snd (cands ! i)))
      \<and> (\<forall>j < i. float_lt (snd (cands ! i)) (snd (cands ! j))))"

text \<open>
  The header pattern as a language: \<open>header_match m g1 g2 g3 g4 g5\<close> says that \<open>m\<close> is
  matched by the pattern with the five groups, that is, \<open>m\<close> is whitespace, digits,
  whitespace, a bar, and twice more whitespace, digits, whitespace, digits or points,
  whitespace and a bar.
\<close>

definition spaces :: "string \<Rightarrow> bool" where
  "spaces s = (\<forall>c \<in> set s. isspace c)"

definition digits :: "string \<Rightarrow> bool" where
  "digits s = (\<forall>c \<in> set s. isdigit c)"

definition digdots :: "string \<Rightarrow> bool" where
  "digdots s = (\<forall>c \<in> set s. isdigdot c)"

definition header_match ::
  "string \<Rightarrow> string \<Rightarrow> string \<Rightarrow> string \<Rightarrow> string \<Rightarrow> string \<Rightarrow> bool" where
  "header_match m g1 g2 g3 g4 g5 =
     (\<exists>s0 s1 s2 s3 s4 s5 s6 s7.
        m = s0 @ g1 @ s1 @ ''|'' @ s2 @ g2 @ s3 @ g3 @ s4 @ ''|'' @ s5 @ g4 @ s6 @ g5 @ s7 @ ''|''
        \<and> spaces s0 \<and> spaces s1 \<and> spaces s2 \<and> spaces s3 \<and> spaces s4 \<and> spaces s5
        \<and> spaces s6 \<and> spaces s7
        \<and> digits g1 \<and> g1 \<noteq> [] \<and> digits g2 \<and> g2 \<noteq> [] \<and> digits g4 \<and> g4 \<noteq> []
        \<and> digdots g3 \<and> digdots g5)"

text \<open>Two residues are in contact when some atom of one is within the distance of some
  atom of the other.\<close>

definition in_contact :: "real \<Rightarrow> residue \<Rightarrow> residue \<Rightarrow> bool" where
  "in_contact d ra rb = (\<exists>a \<in> set (atoms ra). \<exists>b \<in> set (atoms rb). atom_sub a b \<le> d)"


section \<open>Example inputs\<close>

text \<open>
  A structure of two chains on a line: residues 10 and 11 of chain A at 0 and 50,
  residues 20 and 21 of chain B at 3 and 100.
\<close>

definition example_chain_A :: chain where
  "example_chain_A =
     [\<lparr>res_id = ('' '', 10, '' ''), atoms = [\<lparr>atom_name = ''CA'', coord = (0, 0, 0)\<rparr>]\<rparr>,
      \<lparr>res_id = ('' '', 11, '' ''), atoms = [\<lparr>atom_name = ''CA'', coord = (50, 0, 0)\<rparr>]\<rparr>]"

definition example_chain_B :: chain where
  "example_chain_B =
     [\<lparr>res_id = ('' '', 20, '' ''), atoms = [\<lparr>atom_name = ''CA'', coord = (3, 0, 0)\<rparr>]\<rparr>,
      \<lparr>res_id = ('' '', 21, '' ''), atoms = [\<lparr>atom_name = ''CA'', coord = (100, 0, 0)\<rparr>]\<rparr>]"

definition example_model :: model where
  "example_model = [(''A'', example_chain_A), (''B'', example_chain_B)]"

text \<open>
  A chain with an insertion code: residues 52 and 52A of chain H, both next to residue 3
  of chain L.
\<close>

definition example_chain_H :: chain where
  "example_chain_H =
     [\<lparr>res_id = ('' '', 52, '' ''), atoms = [\<lparr>atom_name = ''CA'', coord = (0, 0, 0)\<rparr>]\<rparr>,
      \<lparr>res_id = ('' '', 52, ''A''), atoms = [\<lparr>atom_name = ''CA'', coord = (1, 0, 0)\<rparr>]\<rparr>]"

definition example_chain_L :: chain where
  "example_chain_L =
     [\<lparr>res_id = ('' '', 3, '' ''), atoms = [\<lparr>atom_name = ''CA'', coord = (4, 0, 0)\<rparr>]\<rparr>]"

definition example_antibody :: model where
  "example_antibody = [(''H'', example_chain_H), (''L'', example_chain_L)]"



text \<open>
  Energy files of one cluster: interaction energies of s3, s1, s2 and desolvation
  energies of s2, s4, s3; and a file system that holds them as the files of cluster
  \<open>c1\<close> in directory \<open>d\<close>.
\<close>

definition example_ener :: string where
  "example_ener =
     ''#struc Einter Enb'' @ [CHR 0x0A] @
     ''s3 1 2 3 4 5 6 7 8 9 10 11'' @ [CHR 0x0A] @
     ''s1 1 2 3 4 5 6 7 8 9 10 11'' @ [CHR 0x0A] @
     ''s2 1 2 3 4 5 6 7 8 9 10 11'' @ [CHR 0x0A]"

definition example_edesolv :: string where
  "example_edesolv =
     ''s2 -4'' @ [CHR 0x0A] @ ''s4 -9'' @ [CHR 0x0A] @ ''s3 -7'' @ [CHR 0x0A]"

definition example_files :: "string \<Rightarrow> py_error + string" where
  "example_files p =
     (if p = ''d/c1_ener'' then Inr example_ener
      else if p = ''d/c1_Edesolv'' then Inr example_edesolv
      else Inl FileNotFoundError)"

text \<open>The same with desolvation energies of other structures only.\<close>

definition example_files_disjoint :: "string \<Rightarrow> py_error + string" where
  "example_files_disjoint p =
     (if p = ''d/c1_ener'' then Inr example_ener
      else if p = ''d/c1_Edesolv'' then Inr (''s4 -9'' @ [CHR 0x0A] @ ''s5 -1'')
      else Inl FileNotFoundError)"

definition example_c1 :: analysis where
  "example_c1 = (HaddockAnalysis ''d'')\<lparr>best_cluster := Some ''c1'', best_score := Some (Finite (- 100))\<rparr>"

text \<open>A reader of scores that knows three tokens, and one that knows \<^verbatim>\<open>inf\<close>.\<close>

definition example_float :: "string \<Rightarrow> pyfloat option" where
  "example_float t =
     (if t = ''1'' then Some (Finite 1)
      else if t = ''-2'' then Some (Finite (- 2))
      else if t = ''nan'' then Some NotANumber
      else None)"

definition example_float_inf :: "string \<Rightarrow> pyfloat option" where
  "example_float_inf t = (if t = ''inf'' then Some PosInf else None)"

definition no_files :: "string \<Rightarrow> py_error + string" where
  "no_files p = Inl FileNotFoundError"


section \<open>Properties of the cluster log parser\<close>

text \<open>
  The scan \<open>re_header\<close> and the pattern agree: a result of the scan is a match of the
  pattern followed by the rest (\<open>re_header_sound\<close>), and on a line that starts with any
  match of the pattern the scan succeeds with that rest and that first group
  (\<open>re_header_complete\<close>); the end of the match is therefore unique. Where the pattern
  allows two splits of a run of digits between \<^verbatim>\<open>(\d+)\<close> and \<^verbatim>\<open>([\d.]*)\<close>, the scan takes
  the longest \<^verbatim>\<open>\d+\<close>, as the greedy engine does.
\<close>

lemma space_not_digit: "isspace c \<Longrightarrow> \<not> isdigit c"
  by (auto simp: isspace_def isdigit_def)

lemma space_not_digdot: "isspace c \<Longrightarrow> \<not> isdigdot c"
  by (auto simp: isspace_def isdigdot_def isdigit_def)

lemma digit_not_space: "isdigit c \<Longrightarrow> \<not> isspace c"
  by (auto simp: isspace_def isdigit_def)

lemma digdot_not_space: "isdigdot c \<Longrightarrow> \<not> isspace c"
  using space_not_digdot by blast

lemma bar_class: "\<not> isspace CHR ''|''" "\<not> isdigit CHR ''|''" "\<not> isdigdot CHR ''|''"
  by (simp_all add: isspace_def isdigit_def isdigdot_def)

lemma digit_digdot: "isdigit c \<Longrightarrow> isdigdot c"
  by (simp add: isdigdot_def)

text \<open>Soundness: what the scan returns is a decomposition of the line along the pattern.\<close>

lemma re_int_field_sound:
  "re_int_field t = Some (g, u) \<Longrightarrow> \<exists>s. t = s @ g @ u \<and> spaces s \<and> digits g \<and> g \<noteq> []"
proof -
  assume a: "re_int_field t = Some (g, u)"
  let ?s = "takeWhile isspace t" and ?t = "dropWhile isspace t"
  have g: "g = takeWhile isdigit ?t" "u = dropWhile isdigit ?t" "g \<noteq> []"
    using a by (auto simp: re_int_field_def Let_def split: if_splits)
  have "t = ?s @ g @ u" using g by simp
  moreover have "spaces ?s" by (auto simp: spaces_def dest: set_takeWhileD)
  moreover have "digits g" using g(1) by (auto simp: digits_def dest: set_takeWhileD)
  ultimately show ?thesis using g(3) by blast
qed

lemma re_real_field_sound:
  "re_real_field t = (g, u) \<Longrightarrow> \<exists>s. t = s @ g @ u \<and> spaces s \<and> digdots g"
proof -
  assume a: "re_real_field t = (g, u)"
  let ?s = "takeWhile isspace t" and ?t = "dropWhile isspace t"
  have g: "g = takeWhile isdigdot ?t" "u = dropWhile isdigdot ?t"
    using a by (auto simp: re_real_field_def Let_def)
  have "t = ?s @ g @ u" using g by simp
  moreover have "spaces ?s" by (auto simp: spaces_def dest: set_takeWhileD)
  moreover have "digdots g" using g(1) by (auto simp: digdots_def dest: set_takeWhileD)
  ultimately show ?thesis by blast
qed

lemma re_bar_sound:
  "re_bar (dropWhile isspace u) = Some r \<Longrightarrow> \<exists>s. u = s @ ''|'' @ r \<and> spaces s"
proof -
  assume a: "re_bar (dropWhile isspace u) = Some r"
  then have "dropWhile isspace u = ''|'' @ r"
    by (auto simp: re_bar_def split: list.splits if_splits)
  then have "u = takeWhile isspace u @ ''|'' @ r"
    by (metis takeWhile_dropWhile_id)
  moreover have "spaces (takeWhile isspace u)" by (auto simp: spaces_def dest: set_takeWhileD)
  ultimately show ?thesis by blast
qed

lemma re_header_sound:
  assumes "re_header line = Some (g1, g2, g3, g4, g5, rest)"
  shows "\<exists>m. line = m @ rest \<and> header_match m g1 g2 g3 g4 g5"
proof -
  from assms obtain u1 u2 u3 u4 u5 u6 u7 where
    f1: "re_int_field line = Some (g1, u1)" and b1: "re_bar (dropWhile isspace u1) = Some u2"
    and f2: "re_int_field u2 = Some (g2, u3)" and f3: "re_real_field u3 = (g3, u4)"
    and b2: "re_bar (dropWhile isspace u4) = Some u5"
    and f4: "re_int_field u5 = Some (g4, u6)" and f5: "re_real_field u6 = (g5, u7)"
    and b3: "re_bar (dropWhile isspace u7) = Some rest"
    by (auto simp: re_header_def Let_def split: Option.bind_splits prod.splits)
  from re_int_field_sound[OF f1] obtain s0 where
    1: "line = s0 @ g1 @ u1" "spaces s0" "digits g1" "g1 \<noteq> []" by blast
  from re_bar_sound[OF b1] obtain s1 where 2: "u1 = s1 @ ''|'' @ u2" "spaces s1" by blast
  from re_int_field_sound[OF f2] obtain s2 where
    3: "u2 = s2 @ g2 @ u3" "spaces s2" "digits g2" "g2 \<noteq> []" by blast
  from re_real_field_sound[OF f3] obtain s3 where 4: "u3 = s3 @ g3 @ u4" "spaces s3" "digdots g3" by blast
  from re_bar_sound[OF b2] obtain s4 where 5: "u4 = s4 @ ''|'' @ u5" "spaces s4" by blast
  from re_int_field_sound[OF f4] obtain s5 where
    6: "u5 = s5 @ g4 @ u6" "spaces s5" "digits g4" "g4 \<noteq> []" by blast
  from re_real_field_sound[OF f5] obtain s6 where 7: "u6 = s6 @ g5 @ u7" "spaces s6" "digdots g5" by blast
  from re_bar_sound[OF b3] obtain s7 where 8: "u7 = s7 @ ''|'' @ rest" "spaces s7" by blast
  let ?m = "s0 @ g1 @ s1 @ ''|'' @ s2 @ g2 @ s3 @ g3 @ s4 @ ''|'' @ s5 @ g4 @ s6 @ g5 @ s7 @ ''|''"
  have "line = ?m @ rest"
    unfolding 1(1) 2(1) 3(1) 4(1) 5(1) 6(1) 7(1) 8(1) by simp
  moreover have "header_match ?m g1 g2 g3 g4 g5"
    unfolding header_match_def
    using 1(2-) 2(2) 3(2-) 4(2-) 5(2) 6(2-) 7(2-) 8(2) by blast
  ultimately show ?thesis by blast
qed

text \<open>Completeness: the scan succeeds on every line that starts with a match of the
  pattern, and stops where the match ends.\<close>

lemma run_then_stop:
  assumes "\<forall>c \<in> set g. P c" and "t = [] \<or> \<not> P (hd t)"
  shows "takeWhile P (g @ t) = g" and "dropWhile P (g @ t) = t"
proof -
  have t: "takeWhile P t = []" using assms(2) by (cases t) auto
  have d: "dropWhile P t = t" using assms(2) by (cases t) auto
  show "takeWhile P (g @ t) = g" using assms(1) t by (simp add: takeWhile_append)
  show "dropWhile P (g @ t) = t" using assms(1) d by (simp add: dropWhile_append)
qed

lemma spaces_bar_head:
  assumes "spaces s"
  shows "\<not> isdigit (hd (s @ CHR ''|'' # r))" and "\<not> isdigdot (hd (s @ CHR ''|'' # r))"
    and "dropWhile isspace (s @ CHR ''|'' # r) = CHR ''|'' # r"
proof -
  show "\<not> isdigit (hd (s @ CHR ''|'' # r))"
    using assms bar_class(2) space_not_digit by (cases s) (auto simp: spaces_def)
  show "\<not> isdigdot (hd (s @ CHR ''|'' # r))"
    using assms bar_class(3) space_not_digdot by (cases s) (auto simp: spaces_def)
  show "dropWhile isspace (s @ CHR ''|'' # r) = CHR ''|'' # r"
    using assms bar_class(1) by (simp add: spaces_def dropWhile_append)
qed

lemma class_head_not_space:
  assumes "g \<noteq> []" and "digits g \<or> digdots g" and "spaces s"
  shows "dropWhile isspace (s @ g @ t) = g @ t"
proof -
  obtain c cs where g: "g = c # cs" using assms(1) by (cases g) auto
  have "\<not> isspace c"
    using assms(2) g digit_not_space digdot_not_space by (auto simp: digits_def digdots_def)
  then show ?thesis using assms(3) g by (simp add: spaces_def dropWhile_append)
qed

lemma bar_after_spaces:
  "spaces s \<Longrightarrow> re_bar (dropWhile isspace (s @ CHR ''|'' # r)) = Some r"
  by (simp add: spaces_bar_head(3) re_bar_def)

lemma int_then_bar:
  assumes "spaces s" "digits g" "g \<noteq> []" "spaces s'"
  shows "re_int_field (s @ g @ s' @ CHR ''|'' # r) = Some (g, s' @ CHR ''|'' # r)"
proof -
  have d: "dropWhile isspace (s @ g @ s' @ CHR ''|'' # r) = g @ s' @ CHR ''|'' # r"
    using class_head_not_space[OF assms(3) _ assms(1)] assms(2) by blast
  have st: "s' @ CHR ''|'' # r = [] \<or> \<not> isdigit (hd (s' @ CHR ''|'' # r))"
    using spaces_bar_head(1)[OF assms(4)] by blast
  have g: "\<forall>c \<in> set g. isdigit c" using assms(2) by (simp add: digits_def)
  have "takeWhile isdigit (g @ s' @ CHR ''|'' # r) = g"
    and "dropWhile isdigit (g @ s' @ CHR ''|'' # r) = s' @ CHR ''|'' # r"
    using run_then_stop[where P = isdigit and g = g and t = "s' @ CHR ''|'' # r", OF g st]
    by blast+
  then show ?thesis using d assms(3) by (simp add: re_int_field_def Let_def)
qed

lemma real_then_bar:
  assumes "spaces s" "digdots x" "spaces s'"
  shows "\<exists>h u. re_real_field (s @ x @ s' @ CHR ''|'' # r) = (h, u)
           \<and> re_bar (dropWhile isspace u) = Some r"
proof (cases "x = []")
  case True
  have "spaces (s @ s')" using assms(1,3) by (auto simp: spaces_def)
  then have "dropWhile isspace ((s @ s') @ CHR ''|'' # r) = CHR ''|'' # r"
    by (rule spaces_bar_head(3))
  then have "re_real_field (s @ x @ s' @ CHR ''|'' # r) = ([], CHR ''|'' # r)"
    using True bar_class(3) by (simp add: re_real_field_def Let_def)
  moreover have "re_bar (dropWhile isspace (CHR ''|'' # r)) = Some r"
    using bar_class(1) by (simp add: re_bar_def)
  ultimately show ?thesis by blast
next
  case False
  have d: "dropWhile isspace (s @ x @ s' @ CHR ''|'' # r) = x @ s' @ CHR ''|'' # r"
    using class_head_not_space[OF False _ assms(1)] assms(2) by blast
  have st: "s' @ CHR ''|'' # r = [] \<or> \<not> isdigdot (hd (s' @ CHR ''|'' # r))"
    using spaces_bar_head(2)[OF assms(3)] by blast
  have x: "\<forall>c \<in> set x. isdigdot c" using assms(2) by (simp add: digdots_def)
  have "takeWhile isdigdot (x @ s' @ CHR ''|'' # r) = x"
    and "dropWhile isdigdot (x @ s' @ CHR ''|'' # r) = s' @ CHR ''|'' # r"
    using run_then_stop[where P = isdigdot and g = x and t = "s' @ CHR ''|'' # r", OF x st]
    by blast+
  then have "re_real_field (s @ x @ s' @ CHR ''|'' # r) = (x, s' @ CHR ''|'' # r)"
    using d by (simp add: re_real_field_def Let_def)
  then show ?thesis using bar_after_spaces[OF assms(3)] by blast
qed

lemma int_real_then_bar:
  assumes "spaces s" "digits g" "g \<noteq> []" "spaces s3" "digdots x" "spaces s4"
  shows "\<exists>h u hx u'. re_int_field (s @ g @ s3 @ x @ s4 @ CHR ''|'' # r) = Some (h, u)
           \<and> re_real_field u = (hx, u') \<and> re_bar (dropWhile isspace u') = Some r"
proof -
  let ?T = "s3 @ x @ s4 @ CHR ''|'' # r"
  have d: "dropWhile isspace (s @ g @ ?T) = g @ ?T"
    using class_head_not_space[OF assms(3) _ assms(1)] assms(2) by blast
  have tk: "takeWhile isdigit (g @ ?T) = g @ takeWhile isdigit ?T"
    using assms(2) by (simp add: takeWhile_append digits_def)
  have dr: "dropWhile isdigit (g @ ?T) = dropWhile isdigit ?T"
    using assms(2) by (simp add: dropWhile_append digits_def)
  have f: "re_int_field (s @ g @ ?T) = Some (g @ takeWhile isdigit ?T, dropWhile isdigit ?T)"
    using d tk dr assms(3) by (simp add: re_int_field_def Let_def)
  have "\<exists>s3' x'. dropWhile isdigit ?T = s3' @ x' @ s4 @ CHR ''|'' # r \<and> spaces s3' \<and> digdots x'"
  proof (cases "s3 = []")
    case True
    have st: "s4 @ CHR ''|'' # r = [] \<or> \<not> isdigit (hd (s4 @ CHR ''|'' # r))"
      using spaces_bar_head(1)[OF assms(6)] by blast
    have "dropWhile isdigit (x @ s4 @ CHR ''|'' # r) = dropWhile isdigit x @ s4 @ CHR ''|'' # r"
    proof (cases "\<forall>c \<in> set x. isdigit c")
      case True
      have "dropWhile isdigit (x @ s4 @ CHR ''|'' # r) = s4 @ CHR ''|'' # r"
        using run_then_stop(2)[where P = isdigit and g = x and t = "s4 @ CHR ''|'' # r", OF True st] .
      moreover have "dropWhile isdigit x = []" using True by simp
      ultimately show ?thesis by simp
    next
      case False
      then show ?thesis by (auto simp: dropWhile_append)
    qed
    moreover have "digdots (dropWhile isdigit x)"
      using assms(5) by (auto simp: digdots_def dest: set_dropWhileD)
    moreover have "spaces []" by (simp add: spaces_def)
    ultimately show ?thesis using True by (metis append_Nil)
  next
    case False
    then obtain c cs where s3: "s3 = c # cs" by (cases s3) auto
    then have "\<not> isdigit c" using assms(4) space_not_digit by (simp add: spaces_def)
    then have "dropWhile isdigit ?T = ?T" using s3 by simp
    then show ?thesis using assms(4,5) by blast
  qed
  then obtain s3' x' where u: "dropWhile isdigit ?T = s3' @ x' @ s4 @ CHR ''|'' # r"
    and c: "spaces s3'" "digdots x'" by blast
  from real_then_bar[OF c assms(6), of r] obtain hx u' where
    "re_real_field (dropWhile isdigit ?T) = (hx, u')" "re_bar (dropWhile isspace u') = Some r"
    unfolding u by blast
  with f show ?thesis by blast
qed

lemma re_header_complete:
  assumes "header_match m g1 g2 g3 g4 g5"
  shows "\<exists>h2 h3 h4 h5. re_header (m @ rest) = Some (g1, h2, h3, h4, h5, rest)"
proof -
  from assms obtain s0 s1 s2 s3 s4 s5 s6 s7 where
    m: "m = s0 @ g1 @ s1 @ ''|'' @ s2 @ g2 @ s3 @ g3 @ s4 @ ''|'' @ s5 @ g4 @ s6 @ g5 @ s7 @ ''|''"
    and sp: "spaces s0" "spaces s1" "spaces s2" "spaces s3" "spaces s4" "spaces s5" "spaces s6" "spaces s7"
    and g1: "digits g1" "g1 \<noteq> []" and g2: "digits g2" "g2 \<noteq> []" and g4: "digits g4" "g4 \<noteq> []"
    and gx: "digdots g3" "digdots g5"
    unfolding header_match_def by blast
  let ?r3 = "rest"
  let ?r2 = "s5 @ g4 @ s6 @ g5 @ s7 @ CHR ''|'' # ?r3"
  let ?r1 = "s2 @ g2 @ s3 @ g3 @ s4 @ CHR ''|'' # ?r2"
  have line: "m @ rest = s0 @ g1 @ s1 @ CHR ''|'' # ?r1" unfolding m by simp
  have f1: "re_int_field (m @ rest) = Some (g1, s1 @ CHR ''|'' # ?r1)"
    unfolding line by (rule int_then_bar[OF sp(1) g1 sp(2)])
  have b1: "re_bar (dropWhile isspace (s1 @ CHR ''|'' # ?r1)) = Some ?r1"
    by (rule bar_after_spaces[OF sp(2)])
  from int_real_then_bar[OF sp(3) g2 sp(4) gx(1) sp(5), of ?r2] obtain h2 u3 h3 u4 where
    f2: "re_int_field ?r1 = Some (h2, u3)" and f3: "re_real_field u3 = (h3, u4)"
    and b2: "re_bar (dropWhile isspace u4) = Some ?r2" by blast
  from int_real_then_bar[OF sp(6) g4 sp(7) gx(2) sp(8), of ?r3] obtain h4 u6 h5 u7 where
    f4: "re_int_field ?r2 = Some (h4, u6)" and f5: "re_real_field u6 = (h5, u7)"
    and b3: "re_bar (dropWhile isspace u7) = Some ?r3" by blast
  have "re_header (m @ rest) = Some (g1, h2, h3, h4, h5, rest)"
    unfolding re_header_def f1
    by (simp only: Option.bind.simps prod.case b1 f2 f3 b2 f4 f5 b3 Let_def)
  then show ?thesis by blast
qed


text \<open>Each group is a longest run: the text after it does not go on with a character
  of its class.\<close>

lemma re_int_field_longest: "re_int_field t = Some (g, u) \<Longrightarrow> u = [] \<or> \<not> isdigit (hd u)"
  by (auto simp: re_int_field_def Let_def hd_dropWhile split: if_splits)

lemma re_real_field_longest: "re_real_field t = (g, u) \<Longrightarrow> u = [] \<or> \<not> isdigdot (hd u)"
  by (auto simp: re_real_field_def Let_def hd_dropWhile)


lemma parse_loop_no_header:
  "\<forall>l \<in> set ls. re_header (strip l) = None \<Longrightarrow>
     parse_loop clusters None ls = Inr (clusters, None)"
  by (induction ls) (simp_all add: Let_def)





text \<open>
  Claim C2, as the code has it. The claim says that a text with no line matching the
  header pattern parses to an empty table without an error. In the code the loop ends
  with an empty list of clusters, the frame built from it has no columns, and the
  look-up of its \<^verbatim>\<open>Members\<close> column raises KeyError: for every text that is not taken
  as a path and has no header line, \<open>parse_cluster_log\<close> ends with KeyError.
\<close>

theorem parse_cluster_log_no_header:
  assumes "\<not> endswith log_text ''.log''"
    and "\<forall>l \<in> set (splitlines log_text). re_header (strip l) = None"
  shows "parse_cluster_log read_file log_text = Inl KeyError"
  using assms by (simp add: parse_cluster_log_def parse_loop_no_header append_current_def)

theorem parse_cluster_log_no_header_witness:
  "\<not> endswith (''no clusters found'' @ [CHR 0x0A, CHR 0x0A] @ ''1 2 3'') ''.log''
   \<and> map (\<lambda>l. re_header (strip l))
         (splitlines (''no clusters found'' @ [CHR 0x0A, CHR 0x0A] @ ''1 2 3''))
       = [None, None, None]
   \<and> parse_cluster_log no_files (''no clusters found'' @ [CHR 0x0A, CHR 0x0A] @ ''1 2 3'')
       = Inl KeyError"
proof -
  let ?t = "''no clusters found'' @ [CHR 0x0A, CHR 0x0A] @ ''1 2 3''"
  have h1: "\<not> endswith ?t ''.log''" by code_simp
  have m: "map (\<lambda>l. re_header (strip l)) (splitlines ?t) = [None, None, None]" by code_simp
  have h2: "\<forall>l \<in> set (splitlines ?t). re_header (strip l) = None"
  proof
    fix l assume "l \<in> set (splitlines ?t)"
    then have "re_header (strip l) \<in> set (map (\<lambda>l. re_header (strip l)) (splitlines ?t))"
      by (simp only: set_map image_eqI)
    then show "re_header (strip l) = None" unfolding m by simp
  qed
  from parse_cluster_log_no_header[OF h1 h2, of no_files] h1 m show ?thesis by blast
qed

text \<open>The empty text is one such input.\<close>

lemma parse_cluster_log_empty_text: "parse_cluster_log read_file [] = Inl KeyError"
  by (simp add: parse_cluster_log_def endswith_def splitlines_def append_current_def)





section \<open>Properties of the cluster score file\<close>

lemma score_step_data_line:
  "score_step pf l st = (case data_line pf l of None \<Rightarrow> st | Some e \<Rightarrow> take_better e st)"
  by (simp add: score_step_def data_line_def take_better_def Let_def split: option.splits)

text \<open>The loop only sees the data lines.\<close>

lemma fold_score_step:
  "fold (score_step pf) ls st = fold take_better (List.map_filter (data_line pf) ls) st"
  by (induction ls arbitrary: st)
     (simp_all add: List.map_filter_simps score_step_data_line split: option.splits)

lemma float_lt_irrefl: "\<not> float_lt a a"
  by (cases a) simp_all

lemma float_lt_trans: "float_lt a b \<Longrightarrow> float_lt b c \<Longrightarrow> float_lt a c"
  by (cases a; cases b; cases c) simp_all

lemma float_lt_total:
  "float_lt a PosInf \<Longrightarrow> float_lt b PosInf \<Longrightarrow> float_lt a b \<or> a = b \<or> float_lt b a"
  by (cases a; cases b) auto

text \<open>A score that is not below plus infinity (plus infinity itself, or a NaN) is below
  nothing, so its line never replaces the best pair.\<close>

lemma not_selectable_never_better: "\<not> float_lt a PosInf \<Longrightarrow> \<not> float_lt a b"
  by (cases a; cases b) simp_all

lemma fold_take_better_selectable:
  "fold take_better es st = fold take_better (selectable es) st"
  by (induction es arbitrary: st)
     (auto simp: selectable_def take_better_def not_selectable_never_better)

lemma selectable_lt: "e \<in> set (selectable es) \<Longrightarrow> float_lt (snd e) PosInf"
  by (auto simp: selectable_def)

lemma fold_take_better_first_least:
  assumes "\<forall>e \<in> set cands. float_lt (snd e) PosInf"
  shows "(cands = [] \<and> fold take_better cands (None, PosInf) = (None, PosInf))
       \<or> (\<exists>i. first_least cands i
             \<and> fold take_better cands (None, PosInf) = (Some (fst (cands ! i)), snd (cands ! i)))"
  using assms
proof (induction cands rule: rev_induct)
  case Nil
  then show ?case by simp
next
  case (snoc x xs)
  have sx: "float_lt (snd x) PosInf" using snoc.prems by simp
  have sxs: "\<forall>e \<in> set xs. float_lt (snd e) PosInf" using snoc.prems by simp
  from snoc.IH[OF sxs] show ?case
  proof (elim disjE conjE exE)
    assume "xs = []" "fold take_better xs (None, PosInf) = (None, PosInf)"
    then have "first_least (xs @ [x]) 0 \<and>
               fold take_better (xs @ [x]) (None, PosInf)
                 = (Some (fst ((xs @ [x]) ! 0)), snd ((xs @ [x]) ! 0))"
      using sx by (simp add: first_least_def take_better_def float_lt_irrefl)
    then show ?thesis by blast
  next
    fix i
    assume fl: "first_least xs i"
      and res: "fold take_better xs (None, PosInf) = (Some (fst (xs ! i)), snd (xs ! i))"
    have i: "i < length xs" using fl by (simp add: first_least_def)
    have si: "float_lt (snd (xs ! i)) PosInf" using i sxs by simp
    show ?thesis
    proof (cases "float_lt (snd x) (snd (xs ! i))")
      case True
      have least: "\<forall>j < length (xs @ [x]). \<not> float_lt (snd ((xs @ [x]) ! j)) (snd x)"
      proof (intro allI impI)
        fix j assume "j < length (xs @ [x])"
        then consider "j < length xs" | "j = length xs" by fastforce
        then show "\<not> float_lt (snd ((xs @ [x]) ! j)) (snd x)"
        proof cases
          case 1
          then have "\<not> float_lt (snd (xs ! j)) (snd (xs ! i))"
            using fl by (simp add: first_least_def)
          then have "\<not> float_lt (snd (xs ! j)) (snd x)" using True float_lt_trans by blast
          then show ?thesis using 1 by (simp add: nth_append)
        next
          case 2
          then show ?thesis by (simp add: float_lt_irrefl)
        qed
      qed
      have earlier: "\<forall>j < length xs. float_lt (snd x) (snd ((xs @ [x]) ! j))"
      proof (intro allI impI)
        fix j assume j: "j < length xs"
        then have nlt: "\<not> float_lt (snd (xs ! j)) (snd (xs ! i))"
          using fl by (simp add: first_least_def)
        have sj: "float_lt (snd (xs ! j)) PosInf" using j sxs by simp
        from float_lt_total[OF sj si] nlt
        have "snd (xs ! j) = snd (xs ! i) \<or> float_lt (snd (xs ! i)) (snd (xs ! j))" by blast
        then have "float_lt (snd x) (snd (xs ! j))" using True float_lt_trans by auto
        then show "float_lt (snd x) (snd ((xs @ [x]) ! j))" using j by (simp add: nth_append)
      qed
      have "first_least (xs @ [x]) (length xs)"
        using least earlier by (simp add: first_least_def)
      moreover have "fold take_better (xs @ [x]) (None, PosInf)
                       = (Some (fst ((xs @ [x]) ! length xs)), snd ((xs @ [x]) ! length xs))"
        using res True by (simp add: take_better_def)
      ultimately show ?thesis by blast
    next
      case False
      have "first_least (xs @ [x]) i"
        unfolding first_least_def
      proof (intro conjI allI impI)
        show "i < length (xs @ [x])" using i by simp
      next
        fix j assume "j < length (xs @ [x])"
        then consider "j < length xs" | "j = length xs" by fastforce
        then show "\<not> float_lt (snd ((xs @ [x]) ! j)) (snd ((xs @ [x]) ! i))"
        proof cases
          case 1
          then show ?thesis using fl i by (simp add: first_least_def nth_append)
        next
          case 2
          then show ?thesis using False i by (simp add: nth_append)
        qed
      next
        fix j assume "j < i"
        then show "float_lt (snd ((xs @ [x]) ! i)) (snd ((xs @ [x]) ! j))"
          using fl i by (simp add: first_least_def nth_append)
      qed
      moreover have "fold take_better (xs @ [x]) (None, PosInf)
                       = (Some (fst ((xs @ [x]) ! i)), snd ((xs @ [x]) ! i))"
        using res False i by (simp add: take_better_def nth_append)
      ultimately show ?thesis by blast
    qed
  qed
qed

text \<open>
  Claim C10 as stated fails: the best score starts at plus infinity and a line replaces
  it only with a strictly smaller score. For the file of the single line \<^verbatim>\<open>c1 inf\<close>
  (Python's \<^verbatim>\<open>float("inf")\<close> is plus infinity) that line is a data line and has the
  smallest score of the file, yet the function returns \<open>(None, +infinity)\<close>.
\<close>

theorem parse_cluster_score_inf_counterexample:
  "data_lines example_float_inf ''c1 inf'' = [(''c1'', PosInf)]
   \<and> parse_cluster_score example_float_inf (Inr ''c1 inf'') = Inr (None, PosInf)"
  by code_simp

text \<open>
  Claim C10, amended. For every score file that can be read, \<open>parse_cluster_score\<close>
  returns without raising. It skips comment lines, blank lines, lines with fewer than two
  tokens and lines whose second token \<^verbatim>\<open>float\<close> does not accept; among the remaining data
  lines only those with a score below plus infinity (not plus infinity, not a NaN) can
  be selected. If there is none (in particular if there is no data line) the result is
  \<open>(None, +infinity)\<close>; otherwise it is the name and score of the first of them with the
  least score: no selectable line has a smaller score and every earlier one has a
  greater score.
\<close>

theorem parse_cluster_score_first_least:
  "\<exists>r. parse_cluster_score py_float (Inr content) = Inr r
     \<and> (selectable (data_lines py_float content) = [] \<longrightarrow> r = (None, PosInf))
     \<and> (selectable (data_lines py_float content) \<noteq> [] \<longrightarrow>
          (\<exists>i. first_least (selectable (data_lines py_float content)) i
             \<and> r = (Some (fst (selectable (data_lines py_float content) ! i)),
                     snd (selectable (data_lines py_float content) ! i))))"
proof -
  let ?c = "selectable (data_lines py_float content)"
  have r: "parse_cluster_score py_float (Inr content) = Inr (fold take_better ?c (None, PosInf))"
    unfolding parse_cluster_score_def data_lines_def
    using fold_score_step fold_take_better_selectable by simp
  have "\<forall>e \<in> set ?c. float_lt (snd e) PosInf" using selectable_lt by blast
  from fold_take_better_first_least[OF this] r show ?thesis by auto
qed

theorem parse_cluster_score_first_least_witness:
  "data_lines example_float
      (''# cluster score'' @ [CHR 0x0A, CHR 0x0A] @ ''a 1 0.5'' @ [CHR 0x0A] @ ''lonely''
       @ [CHR 0x0A] @ ''b -2'' @ [CHR 0x0A] @ ''x abc'' @ [CHR 0x0A] @ ''n nan''
       @ [CHR 0x0A] @ ''c -2'' @ [CHR 0x0A])
     = [(''a'', Finite 1), (''b'', Finite (- 2)), (''n'', NotANumber), (''c'', Finite (- 2))]
   \<and> selectable [(''a'', Finite 1), (''b'', Finite (- 2)), (''n'', NotANumber), (''c'', Finite (- 2))]
     = [(''a'', Finite 1), (''b'', Finite (- 2)), (''c'', Finite (- 2))]
   \<and> (\<exists>i. first_least [(''a'', Finite 1), (''b'', Finite (- 2)), (''c'', Finite (- 2))] i
          \<and> parse_cluster_score example_float
               (Inr (''# cluster score'' @ [CHR 0x0A, CHR 0x0A] @ ''a 1 0.5'' @ [CHR 0x0A]
                     @ ''lonely'' @ [CHR 0x0A] @ ''b -2'' @ [CHR 0x0A] @ ''x abc'' @ [CHR 0x0A]
                     @ ''n nan'' @ [CHR 0x0A] @ ''c -2'' @ [CHR 0x0A]))
             = Inr (Some (fst ([(''a'', Finite 1), (''b'', Finite (- 2)), (''c'', Finite (- 2))] ! i)),
                    snd ([(''a'', Finite 1), (''b'', Finite (- 2)), (''c'', Finite (- 2))] ! i)))"
proof -
  let ?f = "''# cluster score'' @ [CHR 0x0A, CHR 0x0A] @ ''a 1 0.5'' @ [CHR 0x0A] @ ''lonely''
       @ [CHR 0x0A] @ ''b -2'' @ [CHR 0x0A] @ ''x abc'' @ [CHR 0x0A] @ ''n nan''
       @ [CHR 0x0A] @ ''c -2'' @ [CHR 0x0A]"
  let ?d = "[(''a'', Finite 1), (''b'', Finite (- 2)), (''n'', NotANumber), (''c'', Finite (- 2))]"
  let ?s = "[(''a'', Finite 1), (''b'', Finite (- 2)), (''c'', Finite (- 2))]"
  have d: "data_lines example_float ?f = ?d" by code_simp
  have s: "selectable ?d = ?s" by code_simp
  have ne: "selectable (data_lines example_float ?f) \<noteq> []" unfolding d s by simp
  from parse_cluster_score_first_least[of example_float ?f] ne
  have "\<exists>i. first_least (selectable (data_lines example_float ?f)) i
          \<and> parse_cluster_score example_float (Inr ?f)
             = Inr (Some (fst (selectable (data_lines example_float ?f) ! i)),
                    snd (selectable (data_lines example_float ?f) ! i))"
    by blast
  then show ?thesis unfolding d s using d s by simp
qed

text \<open>On that file the selected line is \<^verbatim>\<open>b -2\<close>, the earlier of the two with the least
  score.\<close>

lemma parse_cluster_score_example:
  "parse_cluster_score example_float
     (Inr (''# cluster score'' @ [CHR 0x0A, CHR 0x0A] @ ''a 1 0.5'' @ [CHR 0x0A]
           @ ''lonely'' @ [CHR 0x0A] @ ''b -2'' @ [CHR 0x0A] @ ''x abc'' @ [CHR 0x0A]
           @ ''n nan'' @ [CHR 0x0A] @ ''c -2'' @ [CHR 0x0A]))
   = Inr (Some ''b'', Finite (- 2))"
  by code_simp

text \<open>A missing score file ends the call in \<^verbatim>\<open>exit(1)\<close>.\<close>

lemma parse_cluster_score_missing_file:
  "parse_cluster_score py_float (Inl FileNotFoundError) = Inl SystemExit"
  by (simp add: parse_cluster_score_def)


section \<open>Properties of the energy tables\<close>

text \<open>A line that is kept has a first token, the \<^verbatim>\<open>#struc\<close> cell of its row.\<close>

lemma split_from_Nil_iff: "split_from cur s = [] \<longleftrightarrow> cur = [] \<and> (\<forall>c \<in> set s. isspace c)"
  by (induction s arbitrary: cur) auto

lemma strip_has_nonspace: "strip s \<noteq> [] \<Longrightarrow> \<exists>c \<in> set (strip s). \<not> isspace c"
proof -
  assume ne: "strip s \<noteq> []"
  let ?r = "rev (dropWhile isspace s)"
  have "dropWhile isspace ?r \<noteq> []" using ne by (simp add: strip_def)
  then have "\<not> isspace (hd (dropWhile isspace ?r))" by (rule hd_dropWhile)
  moreover have "hd (dropWhile isspace ?r) \<in> set (strip s)"
    using \<open>dropWhile isspace ?r \<noteq> []\<close> by (simp add: strip_def)
  ultimately show ?thesis by blast
qed

lemma is_data_has_token: "is_data l \<Longrightarrow> split (strip l) \<noteq> []"
  using strip_has_nonspace[of l] by (auto simp: is_data_def split_def split_from_Nil_iff)

text \<open>The inner join: its keys, its rows, and when it is empty.\<close>

lemma merge_inner_Nil [simp]: "merge_inner [] right = []"
  by (simp add: merge_inner_def)

lemma merge_inner_Cons:
  "merge_inner ((k, vs) # left) right =
     map (\<lambda>(k', ws). (k, vs @ ws)) (filter (\<lambda>(k', ws). k' = k) right) @ merge_inner left right"
  by (simp add: merge_inner_def)

lemma filter_key_absent:
  "k \<notin> set (map fst right) \<Longrightarrow> filter (\<lambda>(k', ws). k' = k) right = []"
  by (force simp: filter_empty_conv)

lemma filter_key_distinct:
  "distinct (map fst right) \<Longrightarrow> k \<in> set (map fst right) \<Longrightarrow>
     \<exists>ws. filter (\<lambda>(k', ws). k' = k) right = [(k, ws)]"
proof (induction right)
  case Nil
  then show ?case by simp
next
  case (Cons r right)
  obtain k' ws' where r: "r = (k', ws')" by (cases r)
  show ?case
  proof (cases "k' = k")
    case True
    then have "k \<notin> set (map fst right)" using Cons.prems r by simp
    then show ?thesis using True r filter_key_absent by simp
  next
    case False
    then show ?thesis using Cons r by auto
  qed
qed

lemma merge_inner_keys:
  "distinct (map fst right) \<Longrightarrow>
     map fst (merge_inner left right) = filter (\<lambda>k. k \<in> set (map fst right)) (map fst left)"
proof (induction left)
  case Nil
  then show ?case by simp
next
  case (Cons l left)
  obtain k vs where l: "l = (k, vs)" by (cases l)
  show ?case
  proof (cases "k \<in> set (map fst right)")
    case True
    from filter_key_distinct[OF Cons.prems True] obtain ws where
      "filter (\<lambda>(k', ws). k' = k) right = [(k, ws)]" by blast
    then show ?thesis using Cons True l by (simp add: merge_inner_Cons)
  next
    case False
    then show ?thesis using Cons l filter_key_absent[OF False] by (simp add: merge_inner_Cons)
  qed
qed

lemma merge_inner_rows:
  "(k, xs) \<in> set (merge_inner left right) \<longleftrightarrow>
     (\<exists>vs ws. (k, vs) \<in> set left \<and> (k, ws) \<in> set right \<and> xs = vs @ ws)"
proof (induction left)
  case Nil
  then show ?case by simp
next
  case (Cons l left)
  obtain k' vs' where l: "l = (k', vs')" by (cases l)
  have "(k, xs) \<in> set (map (\<lambda>(k'', ws). (k', vs' @ ws)) (filter (\<lambda>(k'', ws). k'' = k') right))
          \<longleftrightarrow> (k = k' \<and> (\<exists>ws. (k, ws) \<in> set right \<and> xs = vs' @ ws))"
    by force
  then show ?case using Cons l by (auto simp: merge_inner_Cons)
qed

lemma merge_inner_key_set:
  "set (map fst (merge_inner left right)) = set (map fst left) \<inter> set (map fst right)"
proof (intro set_eqI iffI)
  fix k assume "k \<in> set (map fst (merge_inner left right))"
  then obtain xs where "(k, xs) \<in> set (merge_inner left right)" by auto
  then obtain vs ws where "(k, vs) \<in> set left" "(k, ws) \<in> set right"
    using merge_inner_rows by blast
  then show "k \<in> set (map fst left) \<inter> set (map fst right)" by force
next
  fix k assume "k \<in> set (map fst left) \<inter> set (map fst right)"
  then obtain vs ws where "(k, vs) \<in> set left" "(k, ws) \<in> set right" by auto
  then have "(k, vs @ ws) \<in> set (merge_inner left right)" using merge_inner_rows by blast
  then show "k \<in> set (map fst (merge_inner left right))" by force
qed

lemma merge_inner_empty_iff:
  "merge_inner left right = [] \<longleftrightarrow> set (map fst left) \<inter> set (map fst right) = {}"
  using merge_inner_key_set[of left right] by (metis map_is_Nil_conv set_empty)

lemma merge_ener_edesolv_frame:
  "fst (merge_ener_edesolv self ener_df edesolv_df) = merge_inner ener_df edesolv_df"
  by (cases ener_df) (auto simp: merge_ener_edesolv_def Let_def merge_inner_def)

lemma merge_ener_edesolv_empty:
  "ener_df = [] \<or> edesolv_df = [] \<or> set (map fst ener_df) \<inter> set (map fst edesolv_df) = {} \<Longrightarrow>
     merge_ener_edesolv self ener_df edesolv_df = ([], self)"
  by (auto simp: merge_ener_edesolv_def Let_def merge_inner_empty_iff)

text \<open>
  Claim C6. Let the two files of a cluster parse to an interaction-energy table with one
  row for each of three structure identifiers \<open>s1\<close>, \<open>s2\<close>, \<open>s3\<close> and a desolvation table
  with one row for each of \<open>s2\<close>, \<open>s3\<close>, \<open>s4\<close> (four different identifiers). Then
  \<open>parse_ener_and_edesolv_files\<close> returns without error the inner join on the identifier:
  the merged table has exactly the rows of \<open>s2\<close> and \<open>s3\<close>, in the order they have in the
  interaction-energy table, each made of the cells of the two source rows; \<open>s1\<close> and \<open>s4\<close>
  are dropped.
\<close>

theorem parse_ener_and_edesolv_files_inner_join:
  assumes pe: "parse_file to_num (rd (os_path_join (directory self) (cluster_file (best_cluster self) ''ener''))) 12
                 = Inr ener_df"
    and pd: "parse_file to_num (rd (os_path_join (directory self) (cluster_file (best_cluster self) ''Edesolv''))) 2
                 = Inr edesolv_df"
    and ids: "distinct [s1, s2, s3, s4]"
    and ke: "distinct (map fst ener_df)" "set (map fst ener_df) = {s1, s2, s3}"
    and kd: "distinct (map fst edesolv_df)" "set (map fst edesolv_df) = {s2, s3, s4}"
  shows "\<exists>merged_df self'. parse_ener_and_edesolv_files to_num rd self = Inr (merged_df, self')
           \<and> map fst merged_df = filter (\<lambda>k. k \<in> {s2, s3}) (map fst ener_df)
           \<and> set (map fst merged_df) = {s2, s3}
           \<and> (\<forall>(k, xs) \<in> set merged_df.
                 \<exists>vs ws. (k, vs) \<in> set ener_df \<and> (k, ws) \<in> set edesolv_df \<and> xs = vs @ ws)"
proof -
  let ?m = "merge_inner ener_df edesolv_df"
  obtain self' where r: "parse_ener_and_edesolv_files to_num rd self = Inr (?m, self')"
    using pe pd merge_ener_edesolv_frame[of self ener_df edesolv_df]
    by (cases "merge_ener_edesolv self ener_df edesolv_df")
       (simp add: parse_ener_and_edesolv_files_def)
  have s1: "s1 \<notin> set (map fst edesolv_df)" using ids kd(2) by auto
  have "\<And>k. k \<in> set (map fst ener_df) \<Longrightarrow> (k \<in> set (map fst edesolv_df)) = (k \<in> {s2, s3})"
    using ids ke(2) kd(2) by auto
  then have "filter (\<lambda>k. k \<in> set (map fst edesolv_df)) (map fst ener_df)
               = filter (\<lambda>k. k \<in> {s2, s3}) (map fst ener_df)"
    by (intro filter_cong) auto
  then have keys: "map fst ?m = filter (\<lambda>k. k \<in> {s2, s3}) (map fst ener_df)"
    using merge_inner_keys[OF kd(1), of ener_df] by simp
  have kset: "set (map fst ?m) = {s2, s3}"
    unfolding merge_inner_key_set ke(2) kd(2) using ids by auto
  have rows: "\<forall>(k, xs) \<in> set ?m.
                 \<exists>vs ws. (k, vs) \<in> set ener_df \<and> (k, ws) \<in> set edesolv_df \<and> xs = vs @ ws"
  proof (clarify)
    fix k xs assume "(k, xs) \<in> set ?m"
    then show "\<exists>vs ws. (k, vs) \<in> set ener_df \<and> (k, ws) \<in> set edesolv_df \<and> xs = vs @ ws"
      by (simp only: merge_inner_rows)
  qed
  from r keys kset rows show ?thesis by blast
qed

theorem parse_ener_and_edesolv_files_inner_join_witness:
  "parse_file (\<lambda>c. NotANumber)
      (example_files (os_path_join (directory example_c1) (cluster_file (best_cluster example_c1) ''ener''))) 12
     = Inr [(''s3'', replicate 11 NotANumber), (''s1'', replicate 11 NotANumber),
            (''s2'', replicate 11 NotANumber)]
   \<and> parse_file (\<lambda>c. NotANumber)
      (example_files (os_path_join (directory example_c1) (cluster_file (best_cluster example_c1) ''Edesolv''))) 2
     = Inr [(''s2'', [NotANumber]), (''s4'', [NotANumber]), (''s3'', [NotANumber])]
   \<and> distinct [''s1'', ''s2'', ''s3'', ''s4'']
   \<and> (\<exists>merged_df self'.
          parse_ener_and_edesolv_files (\<lambda>c. NotANumber) example_files example_c1 = Inr (merged_df, self')
          \<and> map fst merged_df = [''s3'', ''s2''])"
proof -
  let ?E = "[(''s3'', replicate 11 NotANumber), (''s1'', replicate 11 NotANumber),
             (''s2'', replicate 11 NotANumber)]"
  let ?D = "[(''s2'', [NotANumber]), (''s4'', [NotANumber]), (''s3'', [NotANumber])]"
  have pe: "parse_file (\<lambda>c. NotANumber)
      (example_files (os_path_join (directory example_c1) (cluster_file (best_cluster example_c1) ''ener''))) 12
     = Inr ?E" by code_simp
  have pd: "parse_file (\<lambda>c. NotANumber)
      (example_files (os_path_join (directory example_c1) (cluster_file (best_cluster example_c1) ''Edesolv''))) 2
     = Inr ?D" by code_simp
  have ids: "distinct [''s1'', ''s2'', ''s3'', ''s4'']" by simp
  have ke: "distinct (map fst ?E)" "set (map fst ?E) = {''s1'', ''s2'', ''s3''}" by auto
  have kd: "distinct (map fst ?D)" "set (map fst ?D) = {''s2'', ''s3'', ''s4''}" by auto
  have f: "filter (\<lambda>k. k \<in> {''s2'', ''s3''}) (map fst ?E) = [''s3'', ''s2'']" by simp
  from parse_ener_and_edesolv_files_inner_join[OF pe pd ids ke kd]
  obtain m s' where
    r: "parse_ener_and_edesolv_files (\<lambda>c. NotANumber) example_files example_c1 = Inr (m, s')"
    and k: "map fst m = filter (\<lambda>k. k \<in> {''s2'', ''s3''}) (map fst ?E)"
    by (elim exE conjE) (rule that; assumption)
  have ex: "\<exists>merged_df self'.
          parse_ener_and_edesolv_files (\<lambda>c. NotANumber) example_files example_c1 = Inr (merged_df, self')
          \<and> map fst merged_df = [''s3'', ''s2'']"
  proof (intro exI conjI)
    show "parse_ener_and_edesolv_files (\<lambda>c. NotANumber) example_files example_c1 = Inr (m, s')"
      by (rule r)
    show "map fst m = [''s3'', ''s2'']" by (simp only: k f)
  qed
  show ?thesis by (intro conjI pe pd ids ex)
qed

text \<open>
  Claim C3 as stated fails: when the merge is empty the step raises nothing.
  \<open>get_representative_structure\<close> returns an empty frame (as its docstring says), here for
  two tables with no identifier in common and for a cluster whose files are missing, and
  the path of the representative stays \<^verbatim>\<open>None\<close>.
\<close>

theorem get_representative_structure_counterexample:
  "get_representative_structure (\<lambda>c. NotANumber) example_files_disjoint example_c1
     = Inr ([], example_c1)
   \<and> get_representative_structure (\<lambda>c. NotANumber) no_files example_c1 = Inr ([], example_c1)
   \<and> representative_structure_path example_c1 = None"
  by code_simp

text \<open>
  Claim C3, amended. For every cluster whose two partial energy tables merge to an empty
  result (either table empty, or no structure identifier shared), the step returns
  normally: \<open>get_representative_structure\<close> gives an empty frame and leaves the object,
  and so its \<open>representative_structure_path\<close>, as it was. No error is raised.
\<close>

theorem get_representative_structure_empty_merge:
  assumes pe: "parse_file to_num (rd (os_path_join (directory self) (cluster_file (best_cluster self) ''ener''))) 12
                 = Inr ener_df"
    and pd: "parse_file to_num (rd (os_path_join (directory self) (cluster_file (best_cluster self) ''Edesolv''))) 2
                 = Inr edesolv_df"
    and empty: "ener_df = [] \<or> edesolv_df = [] \<or> set (map fst ener_df) \<inter> set (map fst edesolv_df) = {}"
  shows "get_representative_structure to_num rd self = Inr ([], self)"
  using pe pd merge_ener_edesolv_empty[OF empty, of self]
  by (simp add: get_representative_structure_def parse_ener_and_edesolv_files_def)

theorem get_representative_structure_empty_merge_witness:
  "parse_file (\<lambda>c. NotANumber)
      (example_files_disjoint (os_path_join (directory example_c1) (cluster_file (best_cluster example_c1) ''ener''))) 12
     = Inr [(''s3'', replicate 11 NotANumber), (''s1'', replicate 11 NotANumber),
            (''s2'', replicate 11 NotANumber)]
   \<and> parse_file (\<lambda>c. NotANumber)
      (example_files_disjoint (os_path_join (directory example_c1) (cluster_file (best_cluster example_c1) ''Edesolv''))) 2
     = Inr [(''s4'', [NotANumber]), (''s5'', [NotANumber])]
   \<and> set (map fst [(''s3'', replicate 11 NotANumber), (''s1'', replicate 11 NotANumber),
                      (''s2'', replicate 11 NotANumber)])
       \<inter> set (map fst [(''s4'', [NotANumber]), (''s5'', [NotANumber])]) = {}
   \<and> get_representative_structure (\<lambda>c. NotANumber) example_files_disjoint example_c1
       = Inr ([], example_c1)"
proof -
  let ?E = "[(''s3'', replicate 11 NotANumber), (''s1'', replicate 11 NotANumber),
             (''s2'', replicate 11 NotANumber)]"
  let ?D = "[(''s4'', [NotANumber]), (''s5'', [NotANumber])]"
  have pe: "parse_file (\<lambda>c. NotANumber)
      (example_files_disjoint (os_path_join (directory example_c1) (cluster_file (best_cluster example_c1) ''ener''))) 12
     = Inr ?E" by code_simp
  have pd: "parse_file (\<lambda>c. NotANumber)
      (example_files_disjoint (os_path_join (directory example_c1) (cluster_file (best_cluster example_c1) ''Edesolv''))) 2
     = Inr ?D" by code_simp
  have dj: "set (map fst ?E) \<inter> set (map fst ?D) = {}" by simp
  have e: "?E = [] \<or> ?D = [] \<or> set (map fst ?E) \<inter> set (map fst ?D) = {}"
    by (intro disjI2) (rule dj)
  have g: "get_representative_structure (\<lambda>c. NotANumber) example_files_disjoint example_c1
             = Inr ([], example_c1)"
    by (rule get_representative_structure_empty_merge[OF pe pd e])
  show ?thesis by (intro conjI pe pd dj g)
qed

text \<open>
  In the task this is a normal return: with an existing analysis directory, a successful
  analysis script and a readable score file, an empty merge makes lines 91 to 107 return
  the pair of an empty frame and \<^verbatim>\<open>None\<close>.
\<close>

lemma analysis_and_return_empty_merge:
  assumes ex: "env_exists w dir"
    and tool: "env_ana_clusters w dir = Inr u"
    and score: "parse_cluster_score (env_float w)
                  (env_read w (os_path_join dir ''cluster_haddock-score.txt_best4'')) = Inr (c, sc)"
    and rep: "get_representative_structure (env_numeric w) (env_read w)
                ((HaddockAnalysis dir)\<lparr>best_cluster := c, best_score := Some sc\<rparr>)
              = Inr ([], (HaddockAnalysis dir)\<lparr>best_cluster := c, best_score := Some sc\<rparr>)"
  shows "analysis_and_return w dir = Inr (Some [], None)"
  using assms
  by (simp add: analysis_and_return_def analysis_block_def try_analysis_def return_pair_def
      HaddockAnalysis_def)


section \<open>Properties of the interface residues\<close>

text \<open>The comparison of a distance with the threshold, without the square root.\<close>

lemma sqrt_le_iff_sq: "0 \<le> x \<Longrightarrow> sqrt x \<le> d \<longleftrightarrow> 0 \<le> d \<and> x \<le> d\<^sup>2"
proof
  assume x: "0 \<le> x" and le: "sqrt x \<le> d"
  have d: "0 \<le> d" using le real_sqrt_ge_zero[OF x] by linarith
  have "(sqrt x)\<^sup>2 \<le> d\<^sup>2" using le real_sqrt_ge_zero[OF x] by (rule power_mono)
  then show "0 \<le> d \<and> x \<le> d\<^sup>2" using x d by simp
next
  assume "0 \<le> x" "0 \<le> d \<and> x \<le> d\<^sup>2"
  then show "sqrt x \<le> d" by (simp add: real_le_lsqrt)
qed

lemma atom_sub_le_iff:
  "atom_sub a b \<le> d \<longleftrightarrow>
     0 \<le> d \<and> (fst (coord a) - fst (coord b))\<^sup>2 + (fst (snd (coord a)) - fst (snd (coord b)))\<^sup>2
                 + (snd (snd (coord a)) - snd (snd (coord b)))\<^sup>2 \<le> d\<^sup>2"
  by (simp add: atom_sub_def sqrt_le_iff_sq split: prod.splits)

lemma for_atom_b_code [code]:
  "for_atom_b distance atom_a [] = False"
  "for_atom_b distance atom_a (atom_b # bs) =
     (if 0 \<le> distance
         \<and> (fst (coord atom_a) - fst (coord atom_b))\<^sup>2
             + (fst (snd (coord atom_a)) - fst (snd (coord atom_b)))\<^sup>2
             + (snd (snd (coord atom_a)) - snd (snd (coord atom_b)))\<^sup>2 \<le> distance\<^sup>2
      then True else for_atom_b distance atom_a bs)"
  by (simp_all add: atom_sub_le_iff)

text \<open>What the loops compute: the two inner loops decide contact, the two outer loops
  collect, without repetition, the residues in contact with a residue of the other list.\<close>

lemma atom_sub_sym: "atom_sub a b = atom_sub b a"
  by (simp add: atom_sub_def power2_commute split: prod.splits)

lemma in_contact_sym: "in_contact d ra rb = in_contact d rb ra"
  unfolding in_contact_def using atom_sub_sym by metis

lemma for_atom_b_iff: "for_atom_b d a bs \<longleftrightarrow> (\<exists>b \<in> set bs. atom_sub a b \<le> d)"
  by (induction bs) auto

lemma for_atom_a_iff: "for_atom_a d as rb \<longleftrightarrow> (\<exists>a \<in> set as. \<exists>b \<in> set (atoms rb). atom_sub a b \<le> d)"
  by (induction as) (auto simp: for_atom_b_iff)

lemma for_atom_a_in_contact: "for_atom_a d (atoms ra) rb = in_contact d ra rb"
  by (simp add: for_atom_a_iff in_contact_def)

lemma set_set_add [simp]: "set (set_add x s) = insert x (set s)"
  by (auto simp: set_add_def)

lemma distinct_set_add [simp]: "distinct (set_add x s) = distinct s"
  by (auto simp: set_add_def)

lemma for_res_b_sets:
  "for_res_b d ra rbs (ia, ib) = (ia', ib') \<Longrightarrow>
     set ia' = set ia \<union> {r. r = ra \<and> (\<exists>rb \<in> set rbs. in_contact d ra rb)}
   \<and> set ib' = set ib \<union> {rb \<in> set rbs. in_contact d ra rb}
   \<and> (distinct ia \<longrightarrow> distinct ia') \<and> (distinct ib \<longrightarrow> distinct ib')"
proof (induction rbs arbitrary: ia ib)
  case Nil
  then show ?case by simp
next
  case (Cons rb rbs)
  show ?case
  proof (cases "in_contact d ra rb")
    case True
    then have "for_res_b d ra rbs (set_add ra ia, set_add rb ib) = (ia', ib')"
      using Cons.prems by (simp add: for_atom_a_in_contact)
    from Cons.IH[OF this] True show ?thesis by auto
  next
    case False
    then have "for_res_b d ra rbs (ia, ib) = (ia', ib')"
      using Cons.prems by (simp add: for_atom_a_in_contact)
    from Cons.IH[OF this] False show ?thesis by auto
  qed
qed

lemma for_res_a_sets:
  "for_res_a d ras rbs (ia, ib) = (ia', ib') \<Longrightarrow>
     set ia' = set ia \<union> {ra \<in> set ras. \<exists>rb \<in> set rbs. in_contact d ra rb}
   \<and> set ib' = set ib \<union> {rb \<in> set rbs. \<exists>ra \<in> set ras. in_contact d ra rb}
   \<and> (distinct ia \<longrightarrow> distinct ia') \<and> (distinct ib \<longrightarrow> distinct ib')"
proof (induction ras arbitrary: ia ib)
  case Nil
  then show ?case by simp
next
  case (Cons ra ras)
  obtain ja jb where step: "for_res_b d ra rbs (ia, ib) = (ja, jb)" by (cases "for_res_b d ra rbs (ia, ib)")
  then have rest: "for_res_a d ras rbs (ja, jb) = (ia', ib')" using Cons.prems by simp
  from for_res_b_sets[OF step] Cons.IH[OF rest] show ?case by auto
qed

lemma set_sorted_numbers: "set (sorted_numbers l) = resseq ` set l"
  by (simp add: sorted_numbers_def)

lemma sorted_sorted_numbers: "sorted (sorted_numbers l)"
  by (simp add: sorted_numbers_def)

lemma distinct_sorted_numbers: "distinct (sorted_numbers l) = distinct (map resseq l)"
  by (simp add: sorted_numbers_def distinct_map)

lemma interface_sets:
  assumes "for_res_a d ras rbs ([], []) = (ia, ib)"
  shows "set ia = {ra \<in> set ras. \<exists>rb \<in> set rbs. in_contact d ra rb}"
    and "set ib = {rb \<in> set rbs. \<exists>ra \<in> set ras. in_contact d ra rb}"
    and "distinct ia" and "distinct ib"
  using for_res_a_sets[OF assms] by auto

lemma get_interface_residues_Inr:
  assumes "map_of model chain1 = Some residues_a" and "map_of model chain2 = Some residues_b"
  shows "get_interface_residues (model # others) chain1 chain2 d =
           Inr [chain1 \<mapsto> sorted_numbers (fst (for_res_a d residues_a residues_b ([], []))),
                chain2 \<mapsto> sorted_numbers (snd (for_res_a d residues_a residues_b ([], [])))]"
  using assms by (simp add: get_interface_residues_def split: prod.splits)

lemma numbers_a:
  "set (sorted_numbers (fst (for_res_a d ras rbs ([], [])))) =
     {n. \<exists>ra \<in> set ras. resseq ra = n \<and> (\<exists>rb \<in> set rbs. in_contact d ra rb)}"
proof -
  obtain ia ib where r: "for_res_a d ras rbs ([], []) = (ia, ib)"
    by (cases "for_res_a d ras rbs ([], [])")
  show ?thesis using interface_sets(1)[OF r] r by (auto simp: set_sorted_numbers)
qed

lemma numbers_b:
  "set (sorted_numbers (snd (for_res_a d ras rbs ([], [])))) =
     {n. \<exists>rb \<in> set rbs. resseq rb = n \<and> (\<exists>ra \<in> set ras. in_contact d rb ra)}"
proof -
  obtain ia ib where r: "for_res_a d ras rbs ([], []) = (ia, ib)"
    by (cases "for_res_a d ras rbs ([], [])")
  show ?thesis using interface_sets(2)[OF r] r in_contact_sym by (auto simp: set_sorted_numbers)
qed

lemma in_contact_mono: "d1 \<le> d2 \<Longrightarrow> in_contact d1 ra rb \<Longrightarrow> in_contact d2 ra rb"
  unfolding in_contact_def by (meson order_trans)

lemma interface_subset:
  assumes "for_res_a d ras rbs ([], []) = (ia, ib)"
  shows "set ia \<subseteq> set ras" and "set ib \<subseteq> set rbs"
  using interface_sets(1,2)[OF assms] by auto

lemma distinct_numbers:
  assumes "distinct (map resseq rs)" and "distinct l" and "set l \<subseteq> set rs"
  shows "distinct (map resseq l)"
proof -
  have "inj_on resseq (set rs)" using assms(1) by (simp add: distinct_map)
  then have "inj_on resseq (set l)" using assms(3) by (rule inj_on_subset)
  then show ?thesis using assms(2) by (simp add: distinct_map)
qed

lemma example_chains:
  "map_of example_model ''A'' = Some example_chain_A"
  "map_of example_model ''B'' = Some example_chain_B"
  "map_of example_antibody ''H'' = Some example_chain_H"
  "map_of example_antibody ''L'' = Some example_chain_L"
  by (simp_all add: example_model_def example_antibody_def)



text \<open>On the example the interface is residue 10 of chain A and residue 20 of chain B.\<close>

lemma get_interface_residues_example:
  "get_interface_residues [example_model] ''A'' ''B'' 8 = Inr [''A'' \<mapsto> [10], ''B'' \<mapsto> [20]]"
proof -
  have "sorted_numbers (fst (for_res_a 8 example_chain_A example_chain_B ([], []))) = [10]"
    by code_simp
  moreover have "sorted_numbers (snd (for_res_a 8 example_chain_A example_chain_B ([], []))) = [20]"
    by code_simp
  ultimately show ?thesis
    by (simp only: get_interface_residues_Inr[OF example_chains(1) example_chains(2)])
qed

text \<open>
  Claim C8. For every structure whose first model has the two chains and all thresholds
  \<open>d1 < d2\<close>, the call returns at both thresholds, and for each of the two chains the
  numbers returned at \<open>d1\<close> are among those returned at \<open>d2\<close>.
\<close>

theorem get_interface_residues_mono:
  assumes a: "map_of model chain1 = Some residues_a" and b: "map_of model chain2 = Some residues_b"
    and d: "d1 < d2"
  shows "\<exists>r1 r2. get_interface_residues (model # others) chain1 chain2 d1 = Inr r1
           \<and> get_interface_residues (model # others) chain1 chain2 d2 = Inr r2
           \<and> (\<forall>X \<in> {chain1, chain2}. \<exists>l1 l2. r1 X = Some l1 \<and> r2 X = Some l2 \<and> set l1 \<subseteq> set l2)"
proof -
  have m: "\<And>ra rb. in_contact d1 ra rb \<Longrightarrow> in_contact d2 ra rb"
    using in_contact_mono d by (meson less_imp_le)
  have sa: "set (sorted_numbers (fst (for_res_a d1 residues_a residues_b ([], []))))
            \<subseteq> set (sorted_numbers (fst (for_res_a d2 residues_a residues_b ([], []))))"
    unfolding numbers_a using m by blast
  have sb: "set (sorted_numbers (snd (for_res_a d1 residues_a residues_b ([], []))))
            \<subseteq> set (sorted_numbers (snd (for_res_a d2 residues_a residues_b ([], []))))"
    unfolding numbers_b using m by blast
  show ?thesis
    unfolding get_interface_residues_Inr[OF a b] using sa sb by simp
qed

theorem get_interface_residues_mono_witness:
  "map_of example_model ''A'' = Some example_chain_A
   \<and> map_of example_model ''B'' = Some example_chain_B
   \<and> (2::real) < 8
   \<and> (\<exists>r1 r2. get_interface_residues [example_model] ''A'' ''B'' 2 = Inr r1
           \<and> get_interface_residues [example_model] ''A'' ''B'' 8 = Inr r2
           \<and> (\<forall>X \<in> {''A'', ''B''}. \<exists>l1 l2. r1 X = Some l1 \<and> r2 X = Some l2 \<and> set l1 \<subseteq> set l2))"
proof -
  have lt: "(2::real) < 8" by simp
  show ?thesis
    by (intro conjI example_chains(1) example_chains(2) lt
        get_interface_residues_mono[OF example_chains(1) example_chains(2) lt, of "[]"])
qed

text \<open>
  Claim C7 as stated fails. The set that is sorted is a set of residues, and only then
  are the residues replaced by their sequence numbers; two residues of a chain that
  share a sequence number and differ in their insertion code (52 and 52A) are two
  members of the set, and when both are at the interface the number appears twice.
\<close>

theorem get_interface_residues_duplicate_counterexample:
  "get_interface_residues [example_antibody] ''H'' ''L'' 8
     = Inr [''H'' \<mapsto> [52, 52], ''L'' \<mapsto> [3]]
   \<and> \<not> sorted_wrt (<) [52, 52 :: int]"
proof -
  have "sorted_numbers (fst (for_res_a 8 example_chain_H example_chain_L ([], []))) = [52, 52]"
    by code_simp
  moreover have "sorted_numbers (snd (for_res_a 8 example_chain_H example_chain_L ([], []))) = [3]"
    by code_simp
  ultimately have "get_interface_residues [example_antibody] ''H'' ''L'' 8
     = Inr [''H'' \<mapsto> [52, 52], ''L'' \<mapsto> [3]]"
    by (simp only: get_interface_residues_Inr[OF example_chains(3) example_chains(4)])
  moreover have "\<not> sorted_wrt (<) [52, 52 :: int]" by simp
  ultimately show ?thesis by (rule conjI)
qed

text \<open>
  Claim C7, amended. For every structure whose first model has the two chains, and
  every threshold, each of the two returned sequences is sorted in ascending order; it is
  strictly increasing, so free of duplicates, when the residues of its chain have
  pairwise different sequence numbers.
\<close>

theorem get_interface_residues_sorted:
  assumes a: "map_of model chain1 = Some residues_a" and b: "map_of model chain2 = Some residues_b"
  shows "\<exists>r la lb. get_interface_residues (model # others) chain1 chain2 d = Inr r
           \<and> r chain1 = Some la \<and> r chain2 = Some lb
           \<and> sorted la \<and> sorted lb
           \<and> (distinct (map resseq residues_a) \<longrightarrow> sorted_wrt (<) la)
           \<and> (distinct (map resseq residues_b) \<longrightarrow> sorted_wrt (<) lb)"
proof -
  obtain ia ib where r: "for_res_a d residues_a residues_b ([], []) = (ia, ib)"
    by (cases "for_res_a d residues_a residues_b ([], [])")
  have da: "distinct (map resseq residues_a) \<Longrightarrow> sorted_wrt (<) (sorted_numbers ia)"
    using distinct_numbers[OF _ interface_sets(3)[OF r] interface_subset(1)[OF r]]
    by (simp add: strict_sorted_iff sorted_sorted_numbers distinct_sorted_numbers)
  have db: "distinct (map resseq residues_b) \<Longrightarrow> sorted_wrt (<) (sorted_numbers ib)"
    using distinct_numbers[OF _ interface_sets(4)[OF r] interface_subset(2)[OF r]]
    by (simp add: strict_sorted_iff sorted_sorted_numbers distinct_sorted_numbers)
  show ?thesis
  proof (cases "chain1 = chain2")
    case False
    then show ?thesis
      unfolding get_interface_residues_Inr[OF a b] using r da db
      by (simp add: sorted_sorted_numbers)
  next
    case True
    then have "residues_a = residues_b" using a b by simp
    then show ?thesis
      unfolding get_interface_residues_Inr[OF a b] using r True db
      by (simp add: sorted_sorted_numbers)
  qed
qed

theorem get_interface_residues_sorted_witness:
  "map_of example_model ''A'' = Some example_chain_A
   \<and> map_of example_model ''B'' = Some example_chain_B
   \<and> distinct (map resseq example_chain_A)
   \<and> distinct (map resseq example_chain_B)
   \<and> (\<exists>r la lb. get_interface_residues [example_model] ''A'' ''B'' 8 = Inr r
           \<and> r ''A'' = Some la \<and> r ''B'' = Some lb
           \<and> sorted la \<and> sorted lb \<and> sorted_wrt (<) la \<and> sorted_wrt (<) lb)"
proof -
  have da: "distinct (map resseq example_chain_A)" by code_simp
  have db: "distinct (map resseq example_chain_B)" by code_simp
  from get_interface_residues_sorted[OF example_chains(1) example_chains(2), of "[]" 8]
  obtain r la lb where
    r: "get_interface_residues [example_model] ''A'' ''B'' 8 = Inr r"
    and la: "r ''A'' = Some la" and lb: "r ''B'' = Some lb"
    and s: "sorted la" "sorted lb"
    and ia: "distinct (map resseq example_chain_A) \<longrightarrow> sorted_wrt (<) la"
    and ib: "distinct (map resseq example_chain_B) \<longrightarrow> sorted_wrt (<) lb"
    by (elim exE conjE) (rule that; assumption)
  have sa: "sorted_wrt (<) la" using ia da by (rule mp)
  have sb: "sorted_wrt (<) lb" using ib db by (rule mp)
  have ex: "\<exists>r la lb. get_interface_residues [example_model] ''A'' ''B'' 8 = Inr r
           \<and> r ''A'' = Some la \<and> r ''B'' = Some lb
           \<and> sorted la \<and> sorted lb \<and> sorted_wrt (<) la \<and> sorted_wrt (<) lb"
    using r la lb s sa sb by (intro exI conjI)
  show ?thesis by (intro conjI example_chains(1) example_chains(2) da db ex)
qed



section \<open>Properties of the per-cluster task and of the fan-out\<close>

text \<open>Lines 91 to 107 return a pair only when the directory exists and the analysis
  raises nothing.\<close>

lemma analysis_and_return_Inr_iff:
  "analysis_and_return w dir = Inr p \<longleftrightarrow>
     env_exists w dir \<and> (\<exists>merged_df path. try_analysis w dir = Inr (merged_df, path)
                             \<and> p = (Some merged_df, path))"
  by (auto simp: analysis_and_return_def analysis_block_def return_pair_def
      split: sum.splits if_splits prod.splits)

lemma run_haddock_docking_for_cluster_returns:
  assumes "run_haddock_docking_for_cluster w cluster_id cluster_df d = Inr p"
  shows "env_exists w (''Pos'' @ str_int cluster_id @ ''/run1/structures/it1/water'')
         \<and> (\<exists>merged_df path.
               try_analysis w (''Pos'' @ str_int cluster_id @ ''/run1/structures/it1/water'')
                 = Inr (merged_df, path)
               \<and> p = (Some merged_df, path))"
proof -
  have "analysis_and_return w (''Pos'' @ str_int cluster_id @ ''/run1/structures/it1/water'') = Inr p"
    using assms by (simp add: run_haddock_docking_for_cluster_def split: sum.splits)
  then show ?thesis by (simp only: analysis_and_return_Inr_iff)
qed



text \<open>The same when the analysis script fails with an exception in an existing
  directory: the exception is caught and printed, and the return statement raises.\<close>

lemma analysis_and_return_caught:
  "env_exists w dir \<Longrightarrow> env_ana_clusters w dir = Inl (Raised msg) \<Longrightarrow>
     analysis_and_return w dir = Inl UnboundLocalError"
  by (simp add: analysis_and_return_def analysis_block_def return_pair_def is_Exception_def
      try_analysis_def)


lemma starmap_all_return:
  assumes "\<forall>j \<in> set args. \<not> isl (f j)"
  shows "starmap f args = Some (Inr (map (\<lambda>j. projr (f j)) args))"
proof -
  have "filter isl (map f args) = []" using assms by (simp add: filter_empty_conv)
  moreover have "Inl SystemExit \<notin> set (map f args)"
  proof
    assume "Inl SystemExit \<in> set (map f args)"
    then obtain j where "j \<in> set args" "f j = Inl SystemExit" by auto
    then show False using assms by (metis sum.disc(1))
  qed
  ultimately show ?thesis by (simp add: starmap_def Let_def comp_def)
qed




text \<open>When every task returns, the collection phase has one pair per selected cluster,
  in the order of submission.\<close>

lemma starmap_length:
  "\<forall>j \<in> set args. \<not> isl (f j) \<Longrightarrow> \<exists>results. starmap f args = Some (Inr results)
      \<and> length results = length args"
  using starmap_all_return[of args f] by simp


end
